theory Spec2Isabelle
  imports Complex_Main
begin

section \<open>Conventions of the embedding\<close>

text \<open>
  The loss functions of \<^verbatim>\<open>nerfstudio/model_components/losses.py\<close> and the activation of
  \<^verbatim>\<open>nerfstudio/field_components/activations.py\<close> compute on floating-point tensors.
  The embedding idealises a finite floating-point number as a \<^typ>\<open>real\<close>, so rounding
  and overflow are not represented. A tensor whose last axis is the sample axis (with the
  trailing axis of size one dropped) is a list; a batch of rays is a list of such lists;
  an image is a list of rows. Where the source can raise, the model returns \<open>Inl\<close> of the
  exception; where a floating-point operation leaves the finite numbers (logarithm of a
  non-positive number, a division by zero, the mean of an empty tensor) the model returns
  \<open>None\<close>: the result is then NaN, infinite or decided by signed zeros, and is not described
  by a real number.
\<close>

datatype error =
    NotImplementedError
  | NameError string
  | AssertionError
  | TypeError
  | ValueError
  | IndexError
  | RuntimeError
  | AttributeError
  | ZeroDivisionError
  | UnboundLocalError string

section \<open>The truncated exponential\<close>

text \<open>\<^verbatim>\<open>x.clamp(-15, 15)\<close>: first the lower bound, then the upper one.\<close>

definition clamp :: "real \<Rightarrow> real \<Rightarrow> real \<Rightarrow> real" where
  "clamp x lo hi = min (max x lo) hi"

text \<open>
  \<^verbatim>\<open>_TruncExp\<close> is an autograd function: \<^verbatim>\<open>forward\<close> stores its input in the context and
  returns the exponential, \<^verbatim>\<open>backward\<close> reads the stored input back. The context is the
  list of saved tensors, a tensor is a list of reals.
\<close>

record ctx =
  saved_tensors :: "real list list"

definition TruncExp_forward :: "real list \<Rightarrow> ctx \<times> real list" where
  "TruncExp_forward x = (\<lparr>saved_tensors = [x]\<rparr>, map exp x)"

definition TruncExp_backward :: "ctx \<Rightarrow> real list \<Rightarrow> real list" where
  "TruncExp_backward c g =
     (let x = saved_tensors c ! 0
      in map2 (\<lambda>gi xi. gi * exp (clamp xi (-15) 15)) g x)"

definition trunc_exp :: "real list \<Rightarrow> real list" where
  "trunc_exp x = snd (TruncExp_forward x)"

section \<open>Interval resampling\<close>

text \<open>
  \<^verbatim>\<open>torch.cumsum\<close> along the sample axis, as a running sum.
\<close>

fun cumsum_from :: "real \<Rightarrow> real list \<Rightarrow> real list" where
  "cumsum_from a [] = []"
| "cumsum_from a (x # xs) = (a + x) # cumsum_from (a + x) xs"

definition cumsum :: "real list \<Rightarrow> real list" where
  "cumsum xs = cumsum_from 0 xs"

text \<open>
  \<^verbatim>\<open>torch.searchsorted(seq, v, side="right")\<close> on a sorted sequence: the index \<open>i\<close> with
  \<open>seq[i-1] \<le> v < seq[i]\<close>, that is the number of leading elements not above \<open>v\<close>.
\<close>

definition searchsorted_right :: "real list \<Rightarrow> real \<Rightarrow> int" where
  "searchsorted_right sorted_sequence v = int (length (takeWhile (\<lambda>x. x \<le> v) sorted_sequence))"

text \<open>\<^verbatim>\<open>torch.clamp(idx, min=lo, max=hi)\<close> on indices; where \<open>lo > hi\<close> the result is \<open>hi\<close>.\<close>

definition clamp_idx :: "int \<Rightarrow> int \<Rightarrow> int \<Rightarrow> int" where
  "clamp_idx i lo hi = min (max i lo) hi"

text \<open>
  \<^verbatim>\<open>torch.take_along_dim\<close> on the last axis: gathers do not accept an index below zero or
  beyond the end.
\<close>

fun take_along_dim :: "real list \<Rightarrow> int list \<Rightarrow> error + real list" where
  "take_along_dim xs [] = Inr []"
| "take_along_dim xs (i # is) =
     (if 0 \<le> i \<and> i < int (length xs)
      then (case take_along_dim xs is of Inl e \<Rightarrow> Inl e | Inr ys \<Rightarrow> Inr (xs ! nat i # ys))
      else Inl IndexError)"

text \<open>The element-wise difference of two one-axis tensors, with broadcasting of size one.\<close>

definition tensor_sub :: "real list \<Rightarrow> real list \<Rightarrow> error + real list" where
  "tensor_sub xs ys =
     (if length xs = length ys then Inr (map2 (-) xs ys)
      else if length xs = 1 then Inr (map (\<lambda>y. xs ! 0 - y) ys)
      else if length ys = 1 then Inr (map (\<lambda>x. x - ys ! 0) xs)
      else Inl RuntimeError)"

definition outer ::
  "real list \<Rightarrow> real list \<Rightarrow> real list \<Rightarrow> real list \<Rightarrow> real list \<Rightarrow> error + real list" where
  "outer t0_starts t0_ends t1_starts t1_ends y1 =
     (let cy1 = 0 # cumsum y1;
          idx_lo = map (\<lambda>v. searchsorted_right t1_starts v - 1) t0_starts;
          idx_lo = map (\<lambda>i. clamp_idx i 0 (int (length y1) - 1)) idx_lo;
          idx_hi = map (\<lambda>v. searchsorted_right t1_ends v) t0_ends;
          idx_hi = map (\<lambda>i. clamp_idx i 0 (int (length y1) - 1)) idx_hi
      in case take_along_dim (butlast cy1) idx_lo of
           Inl e \<Rightarrow> Inl e
         | Inr cy1_lo \<Rightarrow>
             (case take_along_dim (tl cy1) idx_hi of
                Inl e \<Rightarrow> Inl e
              | Inr cy1_hi \<Rightarrow> tensor_sub cy1_hi cy1_lo))"


section \<open>Ray samples\<close>

text \<open>
  \<^verbatim>\<open>RaySamples\<close> and its \<^verbatim>\<open>Frustums\<close> are defined in \<^verbatim>\<open>nerfstudio/cameras/rays.py\<close>; the
  losses read the four fields below. A batch of rays is the outer list; \<^verbatim>\<open>spacing_starts\<close>
  and \<^verbatim>\<open>spacing_ends\<close> may be \<^verbatim>\<open>None\<close>. The tensor shapes written in the signatures of the
  source (\<^verbatim>\<open>TensorType[...]\<close>) are a precondition of the model: element-wise operations on
  two lists pair the elements by position.
\<close>

record Frustums =
  starts :: "real list list"
  ends :: "real list list"

record RaySamples =
  frustums :: Frustums
  spacing_starts :: "real list list option"
  spacing_ends :: "real list list option"

definition EPS :: real where
  "EPS = 1 / 10000000"

definition URF_SIGMA_SCALE_FACTOR :: real where
  "URF_SIGMA_SCALE_FACTOR = 3"

datatype DepthLossType = DS_NERF | URF

text \<open>
  Python passes any object as \<^verbatim>\<open>depth_loss_type\<close>; \<^verbatim>\<open>==\<close> against a member of the plain
  \<^verbatim>\<open>Enum\<close> holds for that member only.
\<close>

datatype pyval =
    EnumMember DepthLossType
  | IntV int
  | StrV string
  | ObjV
  | NoneV

section \<open>Distortion loss\<close>

text \<open>\<^verbatim>\<open>lossfun_distortion(t, w)\<close> on one ray: \<open>t\<close> has one edge more than \<open>w\<close> has weights.\<close>

definition lossfun_distortion_ray :: "real list \<Rightarrow> real list \<Rightarrow> real" where
  "lossfun_distortion_ray t w =
     (let ut = map2 (\<lambda>a b. (a + b) / 2) (tl t) (butlast t);
          dut = map (\<lambda>ui. map (\<lambda>uj. \<bar>ui - uj\<bar>) ut) ut;
          loss_inter = sum_list (map2 (*) w (map (\<lambda>row. sum_list (map2 (*) w row)) dut));
          loss_intra = sum_list (map2 (*) (map (\<lambda>wi. wi ^ 2) w) (map2 (-) (tl t) (butlast t))) / 3
      in loss_inter + loss_intra)"

definition lossfun_distortion :: "real list list \<Rightarrow> real list list \<Rightarrow> real list" where
  "lossfun_distortion t w = map2 lossfun_distortion_ray t w"

text \<open>
  \<^verbatim>\<open>nerfstudio_distortion_loss\<close>: the body after the argument checks, on one ray
  (\<open>weights\<close> and the spacing starts and ends, of shape \<open>[num_samples, 1]\<close>; the
  locals \<^verbatim>\<open>starts\<close> and \<^verbatim>\<open>ends\<close> are \<open>sp_starts\<close> and \<open>sp_ends\<close> here).
\<close>

definition nerfstudio_distortion_ray :: "real list \<Rightarrow> real list \<Rightarrow> real list \<Rightarrow> real" where
  "nerfstudio_distortion_ray weights sp_starts sp_ends =
     (let midpoints = map2 (\<lambda>s e. (s + e) / 2) sp_starts sp_ends;
          loss = map2 (\<lambda>wi mi. map2 (\<lambda>wj mj. wi * wj * \<bar>mi - mj\<bar>) weights midpoints)
                   weights midpoints;
          loss = sum_list (map sum_list loss)
      in loss + 1 / 3 * sum_list (map2 (*) (map (\<lambda>wi. wi ^ 2) weights) (map2 (-) sp_ends sp_starts)))"

text \<open>
  \<^verbatim>\<open>get_weights\<close> is a method of \<^verbatim>\<open>RaySamples\<close> and a parameter here. The second check
  runs on the weights the first branch has just computed, as in the source.
\<close>

definition nerfstudio_distortion_loss ::
  "(RaySamples \<Rightarrow> real list list \<Rightarrow> real list list) \<Rightarrow> RaySamples \<Rightarrow>
   real list list option \<Rightarrow> real list list option \<Rightarrow> error + real list" where
  "nerfstudio_distortion_loss get_weights ray_samples densities weights =
     (if densities \<noteq> None \<and> weights \<noteq> None then Inl AssertionError
      else
        let weights = (case densities of
                         Some d \<Rightarrow> Some (get_weights ray_samples d)
                       | None \<Rightarrow> weights)
        in if weights \<noteq> None \<and> densities \<noteq> None then Inl AssertionError
           else
             (case (spacing_starts ray_samples, spacing_ends ray_samples) of
                (Some sp_starts, Some sp_ends) \<Rightarrow>
                  (case weights of
                     None \<Rightarrow> Inl TypeError
                   | Some w \<Rightarrow>
                       Inr (map (\<lambda>(wr, sr, er). nerfstudio_distortion_ray wr sr er)
                              (zip w (zip sp_starts sp_ends))))
              | _ \<Rightarrow> Inl AssertionError))"


section \<open>Depth supervision\<close>

text \<open>\<^verbatim>\<open>torch.mean\<close> of a one-axis tensor; the mean of an empty tensor is NaN.\<close>

definition torch_mean :: "real list \<Rightarrow> real option" where
  "torch_mean xs = (if xs = [] then None else Some (sum_list xs / real (length xs)))"

text \<open>A sum along an axis is finite only if every summand is.\<close>

definition sum_finite :: "real option list \<Rightarrow> real option" where
  "sum_finite xs = map_option sum_list (those xs)"

text \<open>
  One sample of \<^verbatim>\<open>ds_nerf_depth_loss\<close>:
  \<^verbatim>\<open>-torch.log(weights + EPS) * torch.exp(-((steps - termination_depth) ** 2) / (2 * sigma)) * lengths\<close>.
  The logarithm of a number that is not positive and the division by a zero \<open>sigma\<close> leave
  the finite numbers.
\<close>

definition ds_nerf_sample :: "real \<Rightarrow> real \<Rightarrow> real \<Rightarrow> real \<Rightarrow> real \<Rightarrow> real option" where
  "ds_nerf_sample sigma depth w step len =
     (if w + EPS \<le> 0 \<or> sigma = 0 then None
      else Some (- ln (w + EPS) * exp (- ((step - depth) ^ 2) / (2 * sigma)) * len))"

definition ds_nerf_depth_loss ::
  "real list list \<Rightarrow> real list \<Rightarrow> real list list \<Rightarrow> real list list \<Rightarrow> real \<Rightarrow> real option" where
  "ds_nerf_depth_loss weights termination_depth steps lengths sigma =
     (let depth_mask = map (\<lambda>d. d > 0) termination_depth;
          loss = map (\<lambda>(d, ws, ss, ls).
                        map (\<lambda>(w, s, l). ds_nerf_sample sigma d w s l) (zip ws (zip ss ls)))
                   (zip termination_depth (zip weights (zip steps lengths)));
          loss = map2 (\<lambda>row m. map_option (\<lambda>v. v * of_bool m) (sum_finite row)) loss depth_mask
      in Option.bind (those loss) torch_mean)"

text \<open>\<^verbatim>\<open>torch.distributions.normal.Normal(loc, scale).log_prob(x)\<close>.\<close>

definition normal_log_prob :: "real \<Rightarrow> real \<Rightarrow> real \<Rightarrow> real" where
  "normal_log_prob loc scale x =
     - ((x - loc) ^ 2) / (2 * scale ^ 2) - ln scale - ln (sqrt (2 * pi))"

text \<open>
  The two line-of-sight sums of \<^verbatim>\<open>urban_radiance_field_depth_loss\<close> on one ray with
  ground-truth depth \<open>d\<close>; a mask is a tensor of zeros and ones.
\<close>

definition line_of_sight_loss_near :: "real \<Rightarrow> real \<Rightarrow> real list \<Rightarrow> real list \<Rightarrow> real" where
  "line_of_sight_loss_near sigma d ws ss =
     sum_list (map2 (\<lambda>w s. of_bool (s \<le> d + sigma \<and> s \<ge> d - sigma)
                           * (w - exp (normal_log_prob 0 (sigma / URF_SIGMA_SCALE_FACTOR) (s - d))) ^ 2)
                 ws ss)"

definition line_of_sight_loss_empty :: "real \<Rightarrow> real \<Rightarrow> real list \<Rightarrow> real list \<Rightarrow> real" where
  "line_of_sight_loss_empty sigma d ws ss =
     sum_list (map2 (\<lambda>w s. of_bool (s < d - sigma) * w ^ 2) ws ss)"

text \<open>
  \<^verbatim>\<open>Normal\<close> validates its arguments: a scale that is not positive raises \<^verbatim>\<open>ValueError\<close>.
\<close>

definition urban_radiance_field_depth_loss ::
  "real list list \<Rightarrow> real list \<Rightarrow> real list \<Rightarrow> real list list \<Rightarrow> real \<Rightarrow> error + real option" where
  "urban_radiance_field_depth_loss weights termination_depth predicted_depth steps sigma =
     (let depth_mask = map (\<lambda>d. d > 0) termination_depth;
          expected_depth_loss = map2 (\<lambda>d p. (d - p) ^ 2) termination_depth predicted_depth
      in if sigma / URF_SIGMA_SCALE_FACTOR \<le> 0 then Inl ValueError
         else
           let line_of_sight_loss =
                 map (\<lambda>(d, ws, ss). line_of_sight_loss_near sigma d ws ss
                                     + line_of_sight_loss_empty sigma d ws ss)
                   (zip termination_depth (zip weights steps));
               loss = map2 (\<lambda>(e, l) m. (e + l) * of_bool m)
                        (zip expected_depth_loss line_of_sight_loss) depth_mask
           in Inr (torch_mean loss))"

definition depth_loss ::
  "real list list \<Rightarrow> RaySamples \<Rightarrow> real list \<Rightarrow> real list \<Rightarrow> real \<Rightarrow> real list \<Rightarrow> bool \<Rightarrow> pyval
   \<Rightarrow> error + real option" where
  "depth_loss weights ray_samples termination_depth predicted_depth sigma directions_norm
     is_euclidean depth_loss_type =
     (let termination_depth =
            (if \<not> is_euclidean then map2 (*) termination_depth directions_norm
             else termination_depth);
          steps = map2 (map2 (\<lambda>s e. (s + e) / 2))
                    (starts (frustums ray_samples)) (ends (frustums ray_samples))
      in if depth_loss_type = EnumMember DS_NERF then
           let lengths = map2 (map2 (\<lambda>s e. e - s))
                           (starts (frustums ray_samples)) (ends (frustums ray_samples))
           in Inr (ds_nerf_depth_loss weights termination_depth steps lengths sigma)
         else if depth_loss_type = EnumMember URF then
           urban_radiance_field_depth_loss weights termination_depth predicted_depth steps sigma
         else Inl NotImplementedError)"

text \<open>
  The Gaussian-weighted loss as the specification words it: for every ray the sum over its
  samples of \<open>-log(w + \<epsilon>) * exp(-(step - depth)\<^sup>2 / (2\<sigma>)) * bin_width\<close> with the frustum
  midpoint as step and \<open>end - start\<close> as bin width, then the mean of these sums over the
  rays with a positive ground-truth depth, the other rays not counted in the denominator.
\<close>

definition gaussian_weighted_ray_sum ::
  "real \<Rightarrow> real \<Rightarrow> real list \<Rightarrow> real list \<Rightarrow> real list \<Rightarrow> real" where
  "gaussian_weighted_ray_sum sigma d ws ss es =
     (\<Sum>(w, s, e) \<leftarrow> zip ws (zip ss es).
        - ln (w + EPS) * exp (- (((s + e) / 2 - d) ^ 2) / (2 * sigma)) * (e - s))"

definition mean_over_valid_rays ::
  "real list list \<Rightarrow> RaySamples \<Rightarrow> real list \<Rightarrow> real \<Rightarrow> real" where
  "mean_over_valid_rays weights ray_samples termination_depth sigma =
     (let rays = zip termination_depth
                   (zip weights (zip (starts (frustums ray_samples)) (ends (frustums ray_samples))));
          valid = filter (\<lambda>(d, ws, ss, es). d > 0) rays
      in sum_list (map (\<lambda>(d, ws, ss, es). gaussian_weighted_ray_sum sigma d ws ss es) valid)
           / real (length valid))"

section \<open>Gradient matching and scale-and-shift invariance\<close>

text \<open>
  A depth map of shape \<open>[batch, height, width]\<close> is a list of images, an image a list of rows.
  \<open>stride step xs\<close> is the slice \<^verbatim>\<open>xs[::step]\<close> for a positive step.
\<close>

type_synonym image = "real list list"

fun stride :: "nat \<Rightarrow> 'a list \<Rightarrow> 'a list" where
  "stride step [] = []"
| "stride step (x # xs) = x # stride step (drop (step - 1) xs)"

definition subsample :: "nat \<Rightarrow> image list \<Rightarrow> image list" where
  "subsample step t = map (\<lambda>img. map (stride step) (stride step img)) t"

definition img_map2 :: "(real \<Rightarrow> real \<Rightarrow> real) \<Rightarrow> image \<Rightarrow> image \<Rightarrow> image" where
  "img_map2 f a b = map2 (map2 f) a b"

text \<open>\<^verbatim>\<open>torch.sum(t, (1, 2))\<close> for one image of the batch.\<close>

definition img_sum :: "image \<Rightarrow> real" where
  "img_sum a = sum_list (map sum_list a)"

text \<open>
  \<^verbatim>\<open>masked_reduction\<close> and \<^verbatim>\<open>normalized_depth_scale_and_shift\<close> live in
  \<^verbatim>\<open>nerfstudio/utils/math.py\<close>; the losses take them as the parameters \<open>masked_reduction\<close>
  and \<open>solver\<close>. The argument \<^verbatim>\<open>mask\<close> of the source is written \<open>mask'\<close>.
\<close>

type_synonym reduction = "real list \<Rightarrow> real list \<Rightarrow> string \<Rightarrow> real"

record MiDaSMSELoss =
  mse_reduction_type :: string

record GradientLoss =
  reduction_type :: string
  scales :: nat

definition MiDaSMSELoss_forward ::
  "reduction \<Rightarrow> MiDaSMSELoss \<Rightarrow> image list \<Rightarrow> image list \<Rightarrow> image list \<Rightarrow> real" where
  "MiDaSMSELoss_forward masked_reduction self prediction target mask' =
     (let summed_mask = map img_sum mask';
          image_loss = map img_sum
                         (map2 (img_map2 (*))
                            (map2 (img_map2 (\<lambda>p t. (p - t) ^ 2)) prediction target) mask')
      in masked_reduction image_loss (map (\<lambda>x. 2 * x) summed_mask) (mse_reduction_type self))"

definition gradient_loss ::
  "reduction \<Rightarrow> GradientLoss \<Rightarrow> image list \<Rightarrow> image list \<Rightarrow> image list \<Rightarrow> real" where
  "gradient_loss masked_reduction self prediction target mask' =
     (let summed_mask = map img_sum mask';
          diff = map2 (img_map2 (-)) prediction target;
          diff = map2 (img_map2 (*)) mask' diff;
          grad_x = map (map (\<lambda>row. map2 (\<lambda>a b. \<bar>a - b\<bar>) (tl row) (butlast row))) diff;
          mask_x = map (map (\<lambda>row. map2 (*) (tl row) (butlast row))) mask';
          grad_x = map2 (img_map2 (*)) mask_x grad_x;
          grad_y = map (\<lambda>img. map2 (map2 (\<lambda>a b. \<bar>a - b\<bar>)) (tl img) (butlast img)) diff;
          mask_y = map (\<lambda>img. map2 (map2 (*)) (tl img) (butlast img)) mask';
          grad_y = map2 (img_map2 (*)) mask_y grad_y;
          image_loss = map2 (+) (map img_sum grad_x) (map img_sum grad_y)
      in masked_reduction image_loss summed_mask (reduction_type self))"

text \<open>The loop over the scales, with the running total (\<open>total'\<close>) as accumulator.\<close>

fun GradientLoss_loop ::
  "reduction \<Rightarrow> GradientLoss \<Rightarrow> image list \<Rightarrow> image list \<Rightarrow> image list \<Rightarrow> real \<Rightarrow> nat list
   \<Rightarrow> real" where
  "GradientLoss_loop masked_reduction self prediction target mask' total' [] = total'"
| "GradientLoss_loop masked_reduction self prediction target mask' total' (scale # rest) =
     (let step = 2 ^ scale;
          grad_loss = gradient_loss masked_reduction self
                        (subsample step prediction) (subsample step target) (subsample step mask')
      in GradientLoss_loop masked_reduction self prediction target mask' (total' + grad_loss) rest)"

definition GradientLoss_forward ::
  "reduction \<Rightarrow> GradientLoss \<Rightarrow> image list \<Rightarrow> image list \<Rightarrow> image list \<Rightarrow> real" where
  "GradientLoss_forward masked_reduction self prediction target mask' =
     GradientLoss_loop masked_reduction self prediction target mask' 0 [0..<scales self]"

record ScaleAndShiftInvariantLoss =
  data_loss :: MiDaSMSELoss
  regularization_loss :: GradientLoss
  alpha :: real
  prediction_ssi :: "image list option"

text \<open>
  \<^verbatim>\<open>ScaleAndShiftInvariantLoss.forward\<close> returns the loss and leaves the aligned prediction in
  the object.
\<close>

definition ScaleAndShiftInvariantLoss_forward ::
  "(image list \<Rightarrow> image list \<Rightarrow> image list \<Rightarrow> real list \<times> real list) \<Rightarrow> reduction \<Rightarrow>
   ScaleAndShiftInvariantLoss \<Rightarrow> image list \<Rightarrow> image list \<Rightarrow> image list \<Rightarrow>
   ScaleAndShiftInvariantLoss \<times> real" where
  "ScaleAndShiftInvariantLoss_forward solver masked_reduction self prediction target mask' =
     (let (scale, shift) = solver prediction target mask';
          ssi = map (\<lambda>(s, h, img). map (map (\<lambda>x. s * x + h)) img)
                  (zip scale (zip shift prediction));
          total' = MiDaSMSELoss_forward masked_reduction (data_loss self) ssi target mask';
          total' = (if alpha self > 0
                   then total' + alpha self * GradientLoss_forward masked_reduction
                                               (regularization_loss self) ssi target mask'
                   else total')
      in (self\<lparr>prediction_ssi := Some ssi\<rparr>, total'))"

text \<open>
  The alignment the solver is to return for one image: a stationary point of the masked
  least-squares objective \<open>\<Sum> mask * (scale * prediction + shift - target)\<^sup>2\<close>, that is a
  solution of its two normal equations. \<open>pixels\<close> lists the (mask, prediction, target)
  triples of an image.
\<close>

definition pixels :: "image \<Rightarrow> image \<Rightarrow> image \<Rightarrow> (real \<times> real \<times> real) list" where
  "pixels m p t = concat (map (\<lambda>(mr, pr, tr). zip mr (zip pr tr)) (zip m (zip p t)))"

definition is_alignment :: "real \<Rightarrow> real \<Rightarrow> image \<Rightarrow> image \<Rightarrow> image \<Rightarrow> bool" where
  "is_alignment s h p t m \<longleftrightarrow>
     (\<Sum>(mi, xi, ti) \<leftarrow> pixels m p t. mi * (s * xi + h - ti) * xi) = 0
     \<and> (\<Sum>(mi, xi, ti) \<leftarrow> pixels m p t. mi * (s * xi + h - ti)) = 0"

definition exact_solver ::
  "(image list \<Rightarrow> image list \<Rightarrow> image list \<Rightarrow> real list \<times> real list) \<Rightarrow>
   image list \<Rightarrow> image list \<Rightarrow> image list \<Rightarrow> bool" where
  "exact_solver solver prediction target mask' \<longleftrightarrow>
     (let (scale, shift) = solver prediction target mask'
      in length scale = length prediction \<and> length shift = length prediction
         \<and> (\<forall>i < length prediction.
               is_alignment (scale ! i) (shift ! i) (prediction ! i) (target ! i) (mask' ! i)))"

text \<open>
  Modelled from the spec: \<^verbatim>\<open>normalized_depth_scale_and_shift\<close> is not among the sources; the
  specification calls it the closed-form affine depth-alignment solver that takes
  (prediction, target, mask) to one (scale, shift) per image. This is the solution of the
  two normal equations by Cramer's rule, and zero where the system is singular.
\<close>

definition closed_form_alignment :: "image \<Rightarrow> image \<Rightarrow> image \<Rightarrow> real \<times> real" where
  "closed_form_alignment p t m =
     (let a_00 = (\<Sum>(mi, xi, ti) \<leftarrow> pixels m p t. mi * xi * xi);
          a_01 = (\<Sum>(mi, xi, ti) \<leftarrow> pixels m p t. mi * xi);
          a_11 = (\<Sum>(mi, xi, ti) \<leftarrow> pixels m p t. mi);
          b_0 = (\<Sum>(mi, xi, ti) \<leftarrow> pixels m p t. mi * xi * ti);
          b_1 = (\<Sum>(mi, xi, ti) \<leftarrow> pixels m p t. mi * ti);
          det = a_00 * a_11 - a_01 * a_01
      in if det = 0 then (0, 0)
         else ((a_11 * b_0 - a_01 * b_1) / det, (- a_01 * b_0 + a_00 * b_1) / det))"

definition closed_form_solver ::
  "image list \<Rightarrow> image list \<Rightarrow> image list \<Rightarrow> real list \<times> real list" where
  "closed_form_solver prediction target mask' =
     (let sols = map (\<lambda>(p, t, m). closed_form_alignment p t m)
                   (zip prediction (zip target mask'))
      in (map fst sols, map snd sols))"

section \<open>Adversarial loss\<close>

text \<open>\<^verbatim>\<open>torch.nn.functional.softplus\<close> with its defaults \<open>beta = 1\<close> and \<open>threshold = 20\<close>.\<close>

definition softplus :: "real \<Rightarrow> real" where
  "softplus x = (if x > 20 then x else ln (1 + exp x))"

record GANLoss =
  m_type :: string
  r1_gamma :: real
  reg_step :: int

text \<open>
  The names bound at the top level of \<^verbatim>\<open>losses.py\<close>: its imports, constants, functions and
  classes. A name that a function body uses without binding it is looked up here (and then
  among the builtins and the names every module has, none of which is \<^verbatim>\<open>step\<close> or
  \<^verbatim>\<open>real_img\<close>).
\<close>

definition losses_module_names :: "string list" where
  "losses_module_names =
     [''Enum'', ''torch'', ''nn'', ''TensorType'', ''Literal'', ''List'', ''conv2d_gradfix'',
      ''RaySamples'', ''masked_reduction'', ''normalized_depth_scale_and_shift'',
      ''L1Loss'', ''MSELoss'', ''LOSSES'', ''EPS'', ''URF_SIGMA_SCALE_FACTOR'',
      ''DepthLossType'', ''outer'', ''lossfun_outer'', ''ray_samples_to_sdist'',
      ''interlevel_loss'', ''lossfun_distortion'', ''distortion_loss'',
      ''nerfstudio_distortion_loss'', ''orientation_loss'', ''pred_normal_loss'',
      ''ds_nerf_depth_loss'', ''urban_radiance_field_depth_loss'', ''depth_loss'',
      ''monosdf_normal_loss'', ''MiDaSMSELoss'', ''GradientLoss'',
      ''ScaleAndShiftInvariantLoss'', ''GANLoss'']"

definition losses_globals :: "string \<rightharpoonup> pyval" where
  "losses_globals = map_of (map (\<lambda>name. (name, ObjV)) losses_module_names)"

text \<open>
  \<^verbatim>\<open>r1_regularization\<close>: \<^verbatim>\<open>torch.autograd.grad\<close> returns a tuple of tensors, and the next line
  calls \<^verbatim>\<open>.pow\<close> on that tuple. The argument is the outcome of the autograd call.
\<close>

definition r1_regularization :: "error + real list list \<Rightarrow> error + real" where
  "r1_regularization grad_real =
     (case grad_real of Inl e \<Rightarrow> Inl e | Inr _ \<Rightarrow> Inl AttributeError)"

text \<open>
  \<^verbatim>\<open>GANLoss.forward(preds, **kwargs)\<close>. The body never reads \<open>kwargs\<close>; \<^verbatim>\<open>step\<close> and
  \<^verbatim>\<open>real_img\<close> are neither parameters nor locals, so they are global names. \<open>autograd\<close> is
  the outcome of differentiating \<^verbatim>\<open>real_pred.sum()\<close> with respect to the image.
\<close>

definition GANLoss_forward ::
  "(string \<rightharpoonup> pyval) \<Rightarrow> (pyval \<Rightarrow> error + real list list) \<Rightarrow> GANLoss \<Rightarrow> real list list
   \<Rightarrow> (string \<rightharpoonup> pyval) \<Rightarrow> error + real option" where
  "GANLoss_forward globals autograd self preds kwargs =
     (if m_type self = ''G'' then
        (case preds of
           [] \<Rightarrow> Inl IndexError
         | fake_pred # _ \<Rightarrow> Inr (torch_mean (map (\<lambda>x. softplus (- x)) fake_pred)))
      else if m_type self = ''D'' then
        (case preds of
           [fake_pred, real_pred] \<Rightarrow>
             (let loss_Dmain =
                    Option.bind (torch_mean (map (\<lambda>x. softplus (- x)) real_pred))
                      (\<lambda>a. map_option (\<lambda>b. a + b) (torch_mean (map softplus fake_pred)));
                  loss = loss_Dmain
              in case globals ''step'' of
                   None \<Rightarrow> Inl (NameError ''step'')
                 | Some (IntV step) \<Rightarrow>
                     if reg_step self = 0 then Inl ZeroDivisionError
                     else if step mod reg_step self = 0 then
                       (case globals ''real_img'' of
                          None \<Rightarrow> Inl (NameError ''real_img'')
                        | Some real_img \<Rightarrow>
                            (case r1_regularization (autograd real_img) of
                               Inl e \<Rightarrow> Inl e
                             | Inr penalty \<Rightarrow>
                                 Inr (map_option (\<lambda>l. l + penalty * (r1_gamma self / 2)) loss)))
                     else Inr loss
                 | Some _ \<Rightarrow> Inl TypeError)
         | _ \<Rightarrow> Inl ValueError)
      else Inl (UnboundLocalError ''loss''))"

section \<open>Properties\<close>

subsection \<open>The truncated exponential\<close>

text \<open>
  Claim C10. The forward value of \<open>trunc_exp\<close> is the exponential of every element, with
  no clamping; the clamp of the exponent to \<open>[-15, 15]\<close> appears in the backward rule
  only, whose result for upstream gradient \<open>g\<close> is \<open>g * exp (clamp x (-15) 15)\<close>.
\<close>

theorem trunc_exp_forward_unclamped:
  "trunc_exp x = map exp x
   \<and> TruncExp_backward (fst (TruncExp_forward x)) g
       = map2 (\<lambda>gi xi. gi * exp (min (max xi (-15)) 15)) g x"
  by (simp add: trunc_exp_def TruncExp_forward_def TruncExp_backward_def clamp_def)

subsection \<open>The outer measure on aligned partitions\<close>

lemma length_cumsum_from: "length (cumsum_from a xs) = length xs"
  by (induction xs arbitrary: a) auto

lemma nth_cumsum_from:
  "k < length xs \<Longrightarrow> cumsum_from a xs ! k = a + sum_list (take (Suc k) xs)"
proof (induction xs arbitrary: a k)
  case Nil then show ?case by simp
next
  case (Cons x xs)
  then show ?case by (cases k) (auto simp: algebra_simps)
qed

lemma length_cumsum: "length (cumsum xs) = length xs"
  by (simp add: cumsum_def length_cumsum_from)

lemma nth_cy1:
  "k \<le> length y1 \<Longrightarrow> (0 # cumsum y1) ! k = sum_list (take k y1)"
  by (cases k) (auto simp: cumsum_def nth_cumsum_from)

lemma searchsorted_right_nth:
  assumes "sorted_wrt (<) xs" "k < length xs"
  shows "searchsorted_right xs (xs ! k) = int k + 1"
proof -
  have "takeWhile (\<lambda>x. x \<le> xs ! k) xs = take (Suc k) xs"
  proof (rule takeWhile_eq_take_P_nth)
    fix i assume "i < Suc k" "i < length xs"
    then show "xs ! i \<le> xs ! k"
      using assms sorted_wrt_nth_less[of "(<)" xs i k] by (cases "i = k") auto
  next
    assume "Suc k < length xs"
    then show "\<not> xs ! Suc k \<le> xs ! k"
      using assms sorted_wrt_nth_less[of "(<)" xs k "Suc k"] by auto
  qed
  then show ?thesis using assms by (simp add: searchsorted_right_def)
qed

lemma take_along_dim_nat:
  "(\<And>k. k \<in> set ks \<Longrightarrow> f k < length xs) \<Longrightarrow>
   take_along_dim xs (map (\<lambda>k. int (f k)) ks) = Inr (map (\<lambda>k. xs ! f k) ks)"
  by (induction ks) auto

lemma map_via_index: "map g xs = map (\<lambda>k. g (xs ! k)) [0..<length xs]"
  by (rule nth_equalityI) auto

lemma map2_map_same: "map2 f (map g ks) (map h ks) = map (\<lambda>k. f (g k) (h k)) ks"
  by (induction ks) auto

lemma sum_list_take_Suc:
  "k < length xs \<Longrightarrow> sum_list (take (Suc k) xs) = sum_list (take k xs) + xs ! k"
  by (simp add: take_Suc_conv_app_nth)

text \<open>
  Claim C1, as amended. On two identical partitions whose starts and whose ends increase
  strictly, \<open>outer\<close> returns for every bin but the last the weight of the bin plus the
  weight of the next bin, and for the last bin its own weight: the right-sided search on
  the ends selects the bin after the aligned one.
\<close>

theorem outer_aligned_envelope:
  assumes st: "sorted_wrt (<) t_starts" and en: "sorted_wrt (<) t_ends"
    and ls: "length t_starts = length y1" and le: "length t_ends = length y1"
  shows "outer t_starts t_ends t_starts t_ends y1
         = Inr (map (\<lambda>k. y1 ! k + (if Suc k < length y1 then y1 ! Suc k else 0))
                  [0..<length y1])"
proof -
  let ?n = "length y1"
  let ?cy1 = "0 # cumsum y1"
  have lo: "map (\<lambda>i. clamp_idx i 0 (int ?n - 1))
              (map (\<lambda>v. searchsorted_right t_starts v - 1) t_starts)
            = map (\<lambda>k. int k) [0..<?n]"
    using st ls
    by (subst map_via_index[of _ t_starts])
       (auto simp: searchsorted_right_nth clamp_idx_def)
  have hi: "map (\<lambda>i. clamp_idx i 0 (int ?n - 1))
              (map (\<lambda>v. searchsorted_right t_ends v) t_ends)
            = map (\<lambda>k. int (min (Suc k) (?n - 1))) [0..<?n]"
    using en le
    by (subst map_via_index[of _ t_ends])
       (auto simp: searchsorted_right_nth clamp_idx_def)
  have tlo: "take_along_dim (butlast ?cy1) (map (\<lambda>k. int k) [0..<?n])
             = Inr (map (\<lambda>k. butlast ?cy1 ! k) [0..<?n])"
    by (rule take_along_dim_nat) (simp add: length_cumsum del: butlast.simps)
  have thi: "take_along_dim (tl ?cy1) (map (\<lambda>k. int (min (Suc k) (?n - 1))) [0..<?n])
             = Inr (map (\<lambda>k. tl ?cy1 ! min (Suc k) (?n - 1)) [0..<?n])"
    by (rule take_along_dim_nat) (auto simp: length_cumsum)
  have el: "tl ?cy1 ! min (Suc k) (?n - 1) - butlast ?cy1 ! k
            = y1 ! k + (if Suc k < ?n then y1 ! Suc k else 0)" if "k < ?n" for k
  proof -
    have a: "butlast ?cy1 ! k = sum_list (take k y1)"
      using that nth_cy1[of k y1] by (simp add: nth_butlast length_cumsum del: butlast.simps)
    have b: "tl ?cy1 ! j = sum_list (take j y1) + y1 ! j" if "j < ?n" for j
      using that by (simp add: cumsum_def nth_cumsum_from sum_list_take_Suc)
    show ?thesis
    proof (cases "Suc k < ?n")
      case True
      then have m: "min (Suc k) (?n - 1) = Suc k" by simp
      have "sum_list (take (Suc k) y1) = sum_list (take k y1) + y1 ! k"
        using that by (rule sum_list_take_Suc)
      with True show ?thesis unfolding m a b[OF True] by simp
    next
      case False
      with that have m: "min (Suc k) (?n - 1) = k" by simp
      from False show ?thesis unfolding m a b[OF that] by simp
    qed
  qed
  let ?A = "\<lambda>k. tl ?cy1 ! min (Suc k) (?n - 1)"
  let ?B = "\<lambda>k. butlast ?cy1 ! k"
  let ?C = "\<lambda>k. y1 ! k + (if Suc k < ?n then y1 ! Suc k else 0)"
  have "tensor_sub (map ?A [0..<?n]) (map ?B [0..<?n])
        = Inr (map2 (-) (map ?A [0..<?n]) (map ?B [0..<?n]))"
    by (simp only: tensor_sub_def length_map refl if_True)
  also have "map2 (-) (map ?A [0..<?n]) (map ?B [0..<?n]) = map (\<lambda>k. ?A k - ?B k) [0..<?n]"
    by (rule map2_map_same)
  also have "\<dots> = map ?C [0..<?n]"
  proof (rule map_cong[OF refl])
    fix k assume "k \<in> set [0..<?n]"
    then have "k < ?n" by simp
    then show "?A k - ?B k = ?C k" by (rule el)
  qed
  finally have sub: "tensor_sub (map ?A [0..<?n]) (map ?B [0..<?n]) = Inr (map ?C [0..<?n])" .
  show ?thesis
    unfolding outer_def Let_def lo hi tlo thi sum.case sub ..
qed

text \<open>
  Claim C1 as stated fails: on the aligned partition with edges \<open>0, 1, 2\<close> and weights
  \<open>[1, 2]\<close> the result is not the weight vector.
\<close>

theorem outer_identity_counterexample:
  "outer [0, 1] [1, 2] [0, 1] [1, 2] [1, 2] \<noteq> Inr [1, 2]"
  by (simp add: outer_def cumsum_def searchsorted_right_def clamp_idx_def tensor_sub_def)

text \<open>The amended statement at the same partition: the result is \<open>[1 + 2, 2]\<close>.\<close>

theorem outer_aligned_envelope_witness:
  "outer [0, 1] [1, 2] [0, 1] [1, 2] [1, 2] = Inr [3, 2]"
  using outer_aligned_envelope[of "[0, 1]" "[1, 2]" "[1, 2]"]
  by (simp add: upt_rec)


subsection \<open>Element-wise operations on paired lists\<close>

lemma map2_map_right: "map2 f xs (map g ys) = map2 (\<lambda>x y. f x (g y)) xs ys"
proof (induction xs arbitrary: ys)
  case Nil then show ?case by simp
next
  case (Cons x xs) then show ?case by (cases ys) auto
qed

lemma map2_map_left: "map2 f (map g xs) ys = map2 (\<lambda>x y. f (g x) y) xs ys"
proof (induction xs arbitrary: ys)
  case Nil then show ?case by simp
next
  case (Cons x xs) then show ?case by (cases ys) auto
qed

lemma map_map2: "map g (map2 f xs ys) = map2 (\<lambda>x y. g (f x y)) xs ys"
proof (induction xs arbitrary: ys)
  case Nil then show ?case by simp
next
  case (Cons x xs) then show ?case by (cases ys) auto
qed

lemma map2_swap: "map2 f xs ys = map2 (\<lambda>y x. f x y) ys xs"
proof (induction xs arbitrary: ys)
  case Nil then show ?case by simp
next
  case (Cons x xs) then show ?case by (cases ys) auto
qed

lemma sum_list_map2_const_mult:
  fixes c :: real
  shows "c * sum_list (map2 f xs ys) = sum_list (map2 (\<lambda>x y. c * f x y) xs ys)"
proof (induction xs arbitrary: ys)
  case Nil then show ?case by simp
next
  case (Cons x xs) then show ?case by (cases ys) (auto simp: algebra_simps)
qed

lemma map2_map_both: "map2 f (map g xs) (map h ys) = map2 (\<lambda>x y. f (g x) (h y)) xs ys"
proof (induction xs arbitrary: ys)
  case Nil then show ?case by simp
next
  case (Cons x xs) then show ?case by (cases ys) auto
qed

subsection \<open>The two distortion formulations\<close>

lemma distortion_inter_agree:
  fixes w u :: "real list"
  shows "sum_list (map sum_list (map2 (\<lambda>wi mi. map2 (\<lambda>wj mj. wi * wj * \<bar>mi - mj\<bar>) w u) w u))
     = sum_list (map2 (*) w (map (\<lambda>row. sum_list (map2 (*) w row))
                                (map (\<lambda>ui. map (\<lambda>uj. \<bar>ui - uj\<bar>) u) u)))"
proof -
  have row: "sum_list (map2 (\<lambda>wj mj. wi * wj * \<bar>mi - mj\<bar>) w u)
             = wi * sum_list (map2 (*) w (map (\<lambda>uj. \<bar>mi - uj\<bar>) u))" for wi mi
    by (simp only: map2_map_right sum_list_map2_const_mult mult.assoc)
  have "map sum_list (map2 (\<lambda>wi mi. map2 (\<lambda>wj mj. wi * wj * \<bar>mi - mj\<bar>) w u) w u)
        = map2 (\<lambda>wi mi. wi * sum_list (map2 (*) w (map (\<lambda>uj. \<bar>mi - uj\<bar>) u))) w u"
    by (auto simp: row)
  also have "\<dots> = map2 (*) w (map (\<lambda>row. sum_list (map2 (*) w row))
                                (map (\<lambda>ui. map (\<lambda>uj. \<bar>ui - uj\<bar>) u) u))"
    by (simp only: map_map o_def map2_map_right)
  finally show ?thesis by (rule arg_cong)
qed

lemma distortion_ray_agree:
  "nerfstudio_distortion_ray w (butlast t) (tl t) = lossfun_distortion_ray t w"
proof -
  let ?m = "map2 (\<lambda>s e. (s + e) / 2) (butlast t) (tl t)"
  let ?ut = "map2 (\<lambda>a b. (a + b) / 2) (tl t) (butlast t)"
  have mid: "?m = ?ut"
    by (subst map2_swap) (simp add: add.commute)
  have intra:
    "1 / 3 * sum_list (map2 (*) (map (\<lambda>wi. wi ^ 2) w) (map2 (-) (tl t) (butlast t)))
     = sum_list (map2 (*) (map (\<lambda>wi. wi ^ 2) w) (map2 (-) (tl t) (butlast t))) / 3"
    by simp
  show ?thesis
    unfolding nerfstudio_distortion_ray_def lossfun_distortion_ray_def Let_def mid
      distortion_inter_agree intra ..
qed

lemma distortion_batch_agree:
  "map (\<lambda>(wr, sr, er). nerfstudio_distortion_ray wr sr er) (zip w (zip (map butlast t) (map tl t)))
   = map2 lossfun_distortion_ray t w"
proof (induction t arbitrary: w)
  case Nil then show ?case by simp
next
  case (Cons tr t) then show ?case by (cases w) (auto simp: distortion_ray_agree)
qed

text \<open>
  Claim C3. On the same partition and weights the pairwise formulation
  \<open>lossfun_distortion\<close> and the per-ray value of \<open>nerfstudio_distortion_loss\<close> (called with
  weights, on ray samples whose spacing starts and ends are the edges without the last and
  without the first one) are the same real number for every ray, for any number of samples;
  in particular they agree within \<open>1e-5\<close>.
\<close>

theorem distortion_formulations_agree:
  "\<exists>v. nerfstudio_distortion_loss get_weights
          \<lparr>frustums = fr, spacing_starts = Some (map butlast t), spacing_ends = Some (map tl t)\<rparr>
          None (Some w) = Inr v
       \<and> v = lossfun_distortion t w
       \<and> list_all2 (\<lambda>a b. \<bar>a - b\<bar> \<le> 1 / 100000) (lossfun_distortion t w) v"
  by (simp add: nerfstudio_distortion_loss_def lossfun_distortion_def distortion_batch_agree
        list_all2_same)

subsection \<open>Translation invariance of the gradient loss\<close>

lemma stride_map: "stride step (map f xs) = map f (stride step xs)"
  by (induction step xs rule: stride.induct) (simp_all add: drop_map)

lemma subsample_map:
  "subsample step (map (map (map f)) t) = map (map (map f)) (subsample step t)"
  by (simp add: subsample_def stride_map o_def)

lemma diff_add_const:
  "map2 (img_map2 (-)) (map (map (map (\<lambda>x. x + c))) p) (map (map (map (\<lambda>x. x + c))) t)
   = map2 (img_map2 (-)) p t"
proof -
  have row: "map2 (-) (map (\<lambda>x. x + c) a) (map (\<lambda>x. x + c) b) = map2 (-) a b" for a b :: "real list"
    by (simp only: map2_map_both add_diff_cancel_right)
  have img: "img_map2 (-) (map (map (\<lambda>x. x + c)) a) (map (map (\<lambda>x. x + c)) b) = img_map2 (-) a b"
    for a b :: image
    unfolding img_map2_def map2_map_both by simp
  show ?thesis
    unfolding map2_map_both img ..
qed

lemma gradient_loss_add_const:
  "gradient_loss mr self (map (map (map (\<lambda>x. x + c))) p) (map (map (map (\<lambda>x. x + c))) t) m
   = gradient_loss mr self p t m"
  unfolding gradient_loss_def diff_add_const ..

lemma GradientLoss_loop_add_const:
  "GradientLoss_loop mr self (map (map (map (\<lambda>x. x + c))) p) (map (map (map (\<lambda>x. x + c))) t) m
     acc scs
   = GradientLoss_loop mr self p t m acc scs"
  by (induction scs arbitrary: acc) (simp_all add: subsample_map gradient_loss_add_const)

text \<open>
  Claim C8. Adding one constant \<open>c\<close> to every pixel of the prediction and of the target
  leaves \<open>GradientLoss.forward\<close> unchanged, and leaves the gradient loss of every scale
  (stride \<open>2 ^ scale\<close>) unchanged, for every mask and every reduction function.
\<close>

theorem GradientLoss_translation_invariant:
  "GradientLoss_forward masked_reduction self
     (map (map (map (\<lambda>x. x + c))) prediction) (map (map (map (\<lambda>x. x + c))) target) mask'
   = GradientLoss_forward masked_reduction self prediction target mask'
   \<and> (\<forall>scale.
        gradient_loss masked_reduction self
          (subsample (2 ^ scale) (map (map (map (\<lambda>x. x + c))) prediction))
          (subsample (2 ^ scale) (map (map (map (\<lambda>x. x + c))) target))
          (subsample (2 ^ scale) mask')
        = gradient_loss masked_reduction self
            (subsample (2 ^ scale) prediction) (subsample (2 ^ scale) target)
            (subsample (2 ^ scale) mask'))"
  by (simp add: GradientLoss_forward_def GradientLoss_loop_add_const subsample_map
        gradient_loss_add_const)


subsection \<open>Depth supervision\<close>

lemma those_map_Some:
  "(\<And>x. x \<in> set xs \<Longrightarrow> f x = Some (g x)) \<Longrightarrow> those (map f xs) = Some (map g xs)"
  by (induction xs) auto

lemma torch_mean_zeros:
  "xs \<noteq> [] \<Longrightarrow> (\<And>x. x \<in> set xs \<Longrightarrow> x = 0) \<Longrightarrow> torch_mean xs = Some 0"
proof -
  assume ne: "xs \<noteq> []" and z: "\<And>x. x \<in> set xs \<Longrightarrow> x = 0"
  have "sum_list xs = 0" using z by (induction xs) auto
  with ne show ?thesis by (simp add: torch_mean_def)
qed

lemma EPS_pos: "0 < EPS"
  by (simp add: EPS_def)

lemma ds_nerf_row_finite:
  assumes "sigma \<noteq> 0" "\<And>w. w \<in> set ws \<Longrightarrow> 0 \<le> w"
  shows "sum_finite (map (\<lambda>(w, s, l). ds_nerf_sample sigma d w s l) (zip ws (zip ss ls)))
         = Some (\<Sum>(w, s, l) \<leftarrow> zip ws (zip ss ls).
                   - ln (w + EPS) * exp (- ((s - d) ^ 2) / (2 * sigma)) * l)"
proof -
  have "those (map (\<lambda>(w, s, l). ds_nerf_sample sigma d w s l) (zip ws (zip ss ls)))
        = Some (map (\<lambda>(w, s, l). - ln (w + EPS) * exp (- ((s - d) ^ 2) / (2 * sigma)) * l)
                  (zip ws (zip ss ls)))"
  proof (rule those_map_Some)
    fix x assume "x \<in> set (zip ws (zip ss ls))"
    then have "fst x \<in> set ws" by (metis prod.collapse set_zip_leftD)
    then have "0 \<le> fst x" by (rule assms(2))
    with EPS_pos have "\<not> fst x + EPS \<le> 0" by linarith
    with assms(1) show "(case x of (w, s, l) \<Rightarrow> ds_nerf_sample sigma d w s l)
        = Some (case x of (w, s, l) \<Rightarrow> - ln (w + EPS) * exp (- ((s - d) ^ 2) / (2 * sigma)) * l)"
      by (cases x) (auto simp: ds_nerf_sample_def)
  qed
  then show ?thesis by (simp add: sum_finite_def)
qed

lemma ds_nerf_depth_loss_value:
  assumes sig: "sigma \<noteq> 0"
    and w: "\<And>ws w. ws \<in> set weights \<Longrightarrow> w \<in> set ws \<Longrightarrow> 0 \<le> w"
  shows "ds_nerf_depth_loss weights termination_depth steps lengths sigma
         = torch_mean
             (map (\<lambda>(d, ws, ss, ls).
                     (\<Sum>(w, s, l) \<leftarrow> zip ws (zip ss ls).
                        - ln (w + EPS) * exp (- ((s - d) ^ 2) / (2 * sigma)) * l) * of_bool (d > 0))
                (zip termination_depth (zip weights (zip steps lengths))))"
proof -
  let ?Z = "zip termination_depth (zip weights (zip steps lengths))"
  let ?rowsum = "\<lambda>d ws ss ls. (\<Sum>(w, s, l) \<leftarrow> zip ws (zip ss ls).
                        - ln (w + EPS) * exp (- ((s - d) ^ 2) / (2 * sigma)) * l)"
  have zz: "zip (map f ?Z) (map g termination_depth)
            = map (\<lambda>(d, r). (f (d, r), g d)) ?Z" for f :: "_ \<Rightarrow> real option list" and g :: "real \<Rightarrow> bool"
    by (rule nth_equalityI) auto
  have "map2 (\<lambda>row m. map_option (\<lambda>v. v * of_bool m) (sum_finite row))
          (map (\<lambda>(d, ws, ss, ls).
                  map (\<lambda>(w, s, l). ds_nerf_sample sigma d w s l) (zip ws (zip ss ls))) ?Z)
          (map (\<lambda>d. d > 0) termination_depth)
        = map (\<lambda>(d, ws, ss, ls).
                 map_option (\<lambda>v. v * of_bool (d > 0))
                   (sum_finite (map (\<lambda>(w, s, l). ds_nerf_sample sigma d w s l) (zip ws (zip ss ls))))) ?Z"
    unfolding zz by (simp add: case_prod_unfold)
  also have "those \<dots> = Some (map (\<lambda>(d, ws, ss, ls). ?rowsum d ws ss ls * of_bool (d > 0)) ?Z)"
  proof (rule those_map_Some)
    fix x assume x: "x \<in> set ?Z"
    obtain d ws ss ls where xe: "x = (d, ws, ss, ls)" by (cases x) auto
    with x have "(ws, ss, ls) \<in> set (zip weights (zip steps lengths))"
      by (metis set_zip_rightD)
    then have "ws \<in> set weights" by (rule set_zip_leftD)
    then have "\<And>w. w \<in> set ws \<Longrightarrow> 0 \<le> w" by (rule w)
    from ds_nerf_row_finite[where d = d and ss = ss and ls = ls, OF sig this]
    show "(case x of (d, ws, ss, ls) \<Rightarrow>
            map_option (\<lambda>v. v * of_bool (d > 0))
              (sum_finite (map (\<lambda>(w, s, l). ds_nerf_sample sigma d w s l) (zip ws (zip ss ls)))))
          = Some (case x of (d, ws, ss, ls) \<Rightarrow> ?rowsum d ws ss ls * of_bool (d > 0))"
      by (simp add: xe)
  qed
  finally show ?thesis
    by (simp add: ds_nerf_depth_loss_def)
qed


lemma sum_list_map_nth:
  fixes f :: "'a \<Rightarrow> real"
  shows "sum_list (map f xs) = (\<Sum>i<length xs. f (xs ! i))"
proof -
  have "sum_list (map f xs) = (\<Sum>i = 0..<length (map f xs). map f xs ! i)"
    by (rule sum_list_sum_nth)
  also have "\<dots> = (\<Sum>i<length xs. f (xs ! i))"
    by (simp add: atLeast0LessThan)
  finally show ?thesis .
qed

text \<open>
  Claim C9. Whatever the other arguments are, \<open>depth_loss\<close> raises \<open>NotImplementedError\<close>
  when \<open>depth_loss_type\<close> is neither the member \<open>DS_NERF\<close> nor the member \<open>URF\<close> of the
  enumeration, and so returns no value for an unrecognised kind.
\<close>

theorem depth_loss_unrecognized_kind:
  assumes "depth_loss_type \<noteq> EnumMember DS_NERF" and "depth_loss_type \<noteq> EnumMember URF"
  shows "depth_loss weights ray_samples termination_depth predicted_depth sigma directions_norm
           is_euclidean depth_loss_type = Inl NotImplementedError
         \<and> (\<forall>v. depth_loss weights ray_samples termination_depth predicted_depth sigma
                   directions_norm is_euclidean depth_loss_type \<noteq> Inr v)"
  using assms by (simp add: depth_loss_def Let_def)

text \<open>The integer \<open>1\<close>, the value of \<open>DS_NERF\<close>, is not the member and is rejected.\<close>

theorem depth_loss_unrecognized_kind_witness:
  "IntV 1 \<noteq> EnumMember DS_NERF \<and> IntV 1 \<noteq> EnumMember URF
   \<and> depth_loss [[1 / 2]] \<lparr>frustums = \<lparr>starts = [[0]], ends = [[2]]\<rparr>,
                            spacing_starts = None, spacing_ends = None\<rparr>
        [1] [1] 1 [1] True (IntV 1) = Inl NotImplementedError"
  using depth_loss_unrecognized_kind[of "IntV 1" "[[1 / 2]]"
          "\<lparr>frustums = \<lparr>starts = [[0]], ends = [[2]]\<rparr>, spacing_starts = None, spacing_ends = None\<rparr>"
          "[1]" "[1]" 1 "[1]" True]
  by simp

lemma ds_nerf_zero_on_invalid:
  assumes inv: "\<forall>d \<in> set termination_depth. d \<le> 0"
    and ne: "termination_depth \<noteq> []"
    and lw: "length weights = length termination_depth"
    and ls: "length steps = length termination_depth"
    and ll: "length lengths = length termination_depth"
    and w: "\<forall>ws \<in> set weights. \<forall>w \<in> set ws. 0 \<le> w"
    and sig: "0 < sigma"
  shows "ds_nerf_depth_loss weights termination_depth steps lengths sigma = Some 0"
proof -
  let ?Z = "zip termination_depth (zip weights (zip steps lengths))"
  have "length ?Z = length termination_depth" using lw ls ll by simp
  with ne have zne: "?Z \<noteq> []" by auto
  have val: "ds_nerf_depth_loss weights termination_depth steps lengths sigma
         = torch_mean
             (map (\<lambda>(d, ws, ss, ls).
                     (\<Sum>(w, s, l) \<leftarrow> zip ws (zip ss ls).
                        - ln (w + EPS) * exp (- ((s - d) ^ 2) / (2 * sigma)) * l) * of_bool (d > 0))
                ?Z)"
    using sig w by (intro ds_nerf_depth_loss_value) auto
  show ?thesis unfolding val
  proof (rule torch_mean_zeros)
    show "map (\<lambda>(d, ws, ss, ls).
                     (\<Sum>(w, s, l) \<leftarrow> zip ws (zip ss ls).
                        - ln (w + EPS) * exp (- ((s - d) ^ 2) / (2 * sigma)) * l) * of_bool (d > 0))
                ?Z \<noteq> []" using zne by simp
  next
    fix x assume "x \<in> set (map (\<lambda>(d, ws, ss, ls).
                     (\<Sum>(w, s, l) \<leftarrow> zip ws (zip ss ls).
                        - ln (w + EPS) * exp (- ((s - d) ^ 2) / (2 * sigma)) * l) * of_bool (d > 0))
                ?Z)"
    then obtain d r where "(d, r) \<in> set ?Z" and xe: "x = (case r of (ws, ss, ls) \<Rightarrow>
                     (\<Sum>(w, s, l) \<leftarrow> zip ws (zip ss ls).
                        - ln (w + EPS) * exp (- ((s - d) ^ 2) / (2 * sigma)) * l) * of_bool (d > 0))"
      by auto
    then have "d \<in> set termination_depth" by (meson set_zip_leftD)
    with inv have "\<not> d > 0" by auto
    with xe show "x = 0" by (simp add: case_prod_unfold)
  qed
qed

lemma urf_zero_on_invalid:
  assumes inv: "\<forall>d \<in> set termination_depth. d \<le> 0"
    and ne: "termination_depth \<noteq> []"
    and lw: "length weights = length termination_depth"
    and ls: "length steps = length termination_depth"
    and lp: "length predicted_depth = length termination_depth"
    and sig: "0 < sigma"
  shows "urban_radiance_field_depth_loss weights termination_depth predicted_depth steps sigma
         = Inr (Some 0)"
proof -
  let ?E = "map2 (\<lambda>d p. (d - p) ^ 2) termination_depth predicted_depth"
  let ?L = "map (\<lambda>(d, ws, ss). line_of_sight_loss_near sigma d ws ss
                                     + line_of_sight_loss_empty sigma d ws ss)
                   (zip termination_depth (zip weights steps))"
  let ?loss = "map2 (\<lambda>(e, l) m. (e + l) * of_bool m) (zip ?E ?L) (map (\<lambda>d. d > 0) termination_depth)"
  have "length ?loss = length termination_depth" using lw ls lp by simp
  with ne have lne: "?loss \<noteq> []" by auto
  have "torch_mean ?loss = Some 0"
  proof (rule torch_mean_zeros[OF lne])
    fix x assume "x \<in> set ?loss"
    then obtain el m where "(el, m) \<in> set (zip (zip ?E ?L) (map (\<lambda>d. d > 0) termination_depth))"
      and xe: "x = (case el of (e, l) \<Rightarrow> (e + l) * of_bool m)" by auto
    then have "m \<in> set (map (\<lambda>d. d > 0) termination_depth)" by (meson set_zip_rightD)
    with inv have "\<not> m" by auto
    with xe show "x = 0" by (simp add: case_prod_unfold)
  qed
  moreover have "\<not> sigma / URF_SIGMA_SCALE_FACTOR \<le> 0"
    using sig by (simp add: URF_SIGMA_SCALE_FACTOR_def)
  ultimately show ?thesis
    by (simp add: urban_radiance_field_depth_loss_def Let_def)
qed

text \<open>
  Claim C7 as stated fails: the batch without rays satisfies its hypotheses, and there both
  losses are the mean of an empty tensor, which is not a number and not zero.
\<close>

theorem depth_losses_empty_batch_counterexample:
  "ds_nerf_depth_loss [] [] [] [] 1 \<noteq> Some 0
   \<and> urban_radiance_field_depth_loss [] [] [] [] 1 \<noteq> Inr (Some 0)"
  by (simp add: ds_nerf_depth_loss_def urban_radiance_field_depth_loss_def torch_mean_def
        URF_SIGMA_SCALE_FACTOR_def)

text \<open>
  Claim C7, as amended. On a batch of at least one ray in which every ground-truth depth is
  at most zero, with weights that are not negative and a positive \<open>sigma\<close>, both
  \<open>ds_nerf_depth_loss\<close> and \<open>urban_radiance_field_depth_loss\<close> return exactly zero. As
  everywhere in this theory the arithmetic is that of the reals: the statement covers the
  inputs on which no intermediate result overflows.
\<close>

theorem depth_losses_zero_on_invalid_batch:
  assumes "\<forall>d \<in> set termination_depth. d \<le> 0"
    and "termination_depth \<noteq> []"
    and "length weights = length termination_depth"
    and "length steps = length termination_depth"
    and "length lengths = length termination_depth"
    and "length predicted_depth = length termination_depth"
    and "\<forall>ws \<in> set weights. \<forall>w \<in> set ws. 0 \<le> w"
    and "0 < sigma"
  shows "ds_nerf_depth_loss weights termination_depth steps lengths sigma = Some 0
         \<and> urban_radiance_field_depth_loss weights termination_depth predicted_depth steps sigma
             = Inr (Some 0)"
  using assms by (simp add: ds_nerf_zero_on_invalid urf_zero_on_invalid)

text \<open>A batch of two rays with depths \<open>0\<close> and \<open>-1\<close>.\<close>

theorem depth_losses_zero_on_invalid_batch_witness:
  "ds_nerf_depth_loss [[1 / 2, 1 / 4], [1, 0]] [0, - 1] [[1, 2], [1, 2]] [[1, 1], [1, 1]] 1 = Some 0
   \<and> urban_radiance_field_depth_loss [[1 / 2, 1 / 4], [1, 0]] [0, - 1] [3, 4] [[1, 2], [1, 2]] 1
       = Inr (Some 0)"
  using depth_losses_zero_on_invalid_batch[of "[0, - 1]" "[[1 / 2, 1 / 4], [1, 0]]"
          "[[1, 2], [1, 2]]" "[[1, 1], [1, 1]]" "[3, 4]" 1]
  by simp

lemma half_eps_ln: "ln (1 / 2 + EPS) \<noteq> 0"
proof -
  have "0 < 1 / 2 + EPS" "1 / 2 + EPS \<noteq> 1" by (simp_all add: EPS_def)
  then show ?thesis by (simp add: ln_eq_zero_iff)
qed

lemma cx_code:
  "depth_loss [[1 / 2], [1 / 2]]
     \<lparr>frustums = \<lparr>starts = [[0], [0]], ends = [[2], [2]]\<rparr>, spacing_starts = None,
      spacing_ends = None\<rparr>
     [1, 0] [1, 1] 1 [1, 1] True (EnumMember DS_NERF)
   = Inr (Some (- ln (1 / 2 + EPS)))"
proof -
  have "\<not> 1 / 2 + EPS \<le> 0" by (simp add: EPS_def)
  then show ?thesis
    by (simp add: depth_loss_def ds_nerf_depth_loss_def ds_nerf_sample_def sum_finite_def
        torch_mean_def)
qed

lemma cx_spec:
  "mean_over_valid_rays [[1 / 2], [1 / 2]]
     \<lparr>frustums = \<lparr>starts = [[0], [0]], ends = [[2], [2]]\<rparr>, spacing_starts = None,
      spacing_ends = None\<rparr> [1, 0] 1
   = - 2 * ln (1 / 2 + EPS)"
  by (simp add: mean_over_valid_rays_def gaussian_weighted_ray_sum_def)

text \<open>
  Claim C2 as stated fails: with one valid and one invalid ray the value returned for
  \<open>DS_NERF\<close> is not the mean over the valid rays; the invalid ray counts in the
  denominator.
\<close>

theorem depth_loss_mean_over_valid_counterexample:
  "depth_loss [[1 / 2], [1 / 2]]
     \<lparr>frustums = \<lparr>starts = [[0], [0]], ends = [[2], [2]]\<rparr>, spacing_starts = None,
      spacing_ends = None\<rparr>
     [1, 0] [1, 1] 1 [1, 1] True (EnumMember DS_NERF)
   \<noteq> Inr (Some (mean_over_valid_rays [[1 / 2], [1 / 2]]
        \<lparr>frustums = \<lparr>starts = [[0], [0]], ends = [[2], [2]]\<rparr>, spacing_starts = None,
         spacing_ends = None\<rparr> [1, 0] 1))"
  unfolding cx_code cx_spec using half_eps_ln by simp

lemma ds_nerf_ray_sum_index:
  assumes "length ss = length ws" "length es = length ws"
  shows "(\<Sum>(w, s, l) \<leftarrow> zip ws (zip (map2 (\<lambda>s e. (s + e) / 2) ss es) (map2 (\<lambda>s e. e - s) ss es)).
            - ln (w + EPS) * exp (- ((s - d) ^ 2) / (2 * sigma)) * l)
         = (\<Sum>i < length ws.
              - ln (ws ! i + EPS) * exp (- (((ss ! i + es ! i) / 2 - d) ^ 2) / (2 * sigma))
                * (es ! i - ss ! i))"
proof -
  let ?Z = "zip ws (zip (map2 (\<lambda>s e. (s + e) / 2) ss es) (map2 (\<lambda>s e. e - s) ss es))"
  have len: "length ?Z = length ws" using assms by simp
  have nth: "?Z ! i = (ws ! i, (ss ! i + es ! i) / 2, es ! i - ss ! i)" if "i < length ws" for i
    using that assms by simp
  show ?thesis
    unfolding sum_list_map_nth len
    by (rule sum.cong) (simp_all add: nth)
qed

text \<open>
  Claim C2, as amended. On a batch of at least one ray with weights that are not negative
  and a positive \<open>sigma\<close>, \<open>depth_loss\<close> with kind \<open>DS_NERF\<close> returns the sum over the rays
  with positive depth of the sum over the samples of
  \<open>-log(w + \<epsilon>) * exp(-(step - depth)\<^sup>2 / (2\<sigma>)) * (end - start)\<close>, with the frustum midpoint
  as step, divided by the number of all rays of the batch. The depth is the ground-truth
  depth, multiplied by the norm of the ray direction when \<open>is_euclidean\<close> is false.
\<close>

theorem depth_loss_ds_nerf_mean_over_all_rays:
  assumes ne: "termination_depth \<noteq> []"
    and lw: "length weights = length termination_depth"
    and lst: "length (starts (frustums ray_samples)) = length termination_depth"
    and len: "length (ends (frustums ray_samples)) = length termination_depth"
    and ldn: "length directions_norm = length termination_depth"
    and rays: "\<forall>b < length termination_depth.
                 length (starts (frustums ray_samples) ! b) = length (weights ! b)
                 \<and> length (ends (frustums ray_samples) ! b) = length (weights ! b)"
    and nonneg: "\<forall>ws \<in> set weights. \<forall>w \<in> set ws. 0 \<le> w"
    and sig: "0 < sigma"
  shows "let depth = (\<lambda>b. if is_euclidean then termination_depth ! b
                           else termination_depth ! b * directions_norm ! b);
             s = (\<lambda>b i. starts (frustums ray_samples) ! b ! i);
             e = (\<lambda>b i. ends (frustums ray_samples) ! b ! i)
         in depth_loss weights ray_samples termination_depth predicted_depth sigma
              directions_norm is_euclidean (EnumMember DS_NERF)
            = Inr (Some ((\<Sum>b < length termination_depth.
                            if depth b > 0
                            then (\<Sum>i < length (weights ! b).
                                    - ln (weights ! b ! i + EPS)
                                    * exp (- (((s b i + e b i) / 2 - depth b) ^ 2) / (2 * sigma))
                                    * (e b i - s b i))
                            else 0)
                         / real (length termination_depth)))"
proof -
  let ?B = "length termination_depth"
  let ?S = "starts (frustums ray_samples)"
  let ?E = "ends (frustums ray_samples)"
  let ?D = "if \<not> is_euclidean then map2 (*) termination_depth directions_norm
            else termination_depth"
  let ?depth = "\<lambda>b. if is_euclidean then termination_depth ! b
                     else termination_depth ! b * directions_norm ! b"
  let ?steps = "map2 (map2 (\<lambda>s e. (s + e) / 2)) ?S ?E"
  let ?lengths = "map2 (map2 (\<lambda>s e. e - s)) ?S ?E"
  let ?Z = "zip ?D (zip weights (zip ?steps ?lengths))"
  let ?F = "\<lambda>(d, ws, ss, ls).
              (\<Sum>(w, s, l) \<leftarrow> zip ws (zip ss ls).
                 - ln (w + EPS) * exp (- ((s - d) ^ 2) / (2 * sigma)) * l) * of_bool (d > 0)"
  let ?G = "\<lambda>b. if ?depth b > 0
                 then (\<Sum>i < length (weights ! b).
                         - ln (weights ! b ! i + EPS)
                         * exp (- (((?S ! b ! i + ?E ! b ! i) / 2 - ?depth b) ^ 2) / (2 * sigma))
                         * (?E ! b ! i - ?S ! b ! i))
                 else 0"
  have lD: "length ?D = ?B" using ldn by simp
  have lZ: "length ?Z = ?B" using lD lw lst len by simp
  have nD: "?D ! b = ?depth b" if "b < ?B" for b using that ldn by simp
  have nZ: "?Z ! b = (?depth b, weights ! b,
                      map2 (\<lambda>s e. (s + e) / 2) (?S ! b) (?E ! b),
                      map2 (\<lambda>s e. e - s) (?S ! b) (?E ! b))" if "b < ?B" for b
  proof -
    have "?Z ! b = (?D ! b, weights ! b, ?steps ! b, ?lengths ! b)"
      using that lD lw lst len by simp
    moreover have "?steps ! b = map2 (\<lambda>s e. (s + e) / 2) (?S ! b) (?E ! b)"
      using that lst len by simp
    moreover have "?lengths ! b = map2 (\<lambda>s e. e - s) (?S ! b) (?E ! b)"
      using that lst len by simp
    ultimately show ?thesis using nD[OF that] by simp
  qed
  have FG: "?F (?Z ! b) = ?G b" if "b < ?B" for b
  proof -
    from rays that have l: "length (?S ! b) = length (weights ! b)"
      "length (?E ! b) = length (weights ! b)" by auto
    show ?thesis
      unfolding nZ[OF that] prod.case ds_nerf_ray_sum_index[OF l] by simp
  qed
  have "ds_nerf_depth_loss weights ?D ?steps ?lengths sigma = torch_mean (map ?F ?Z)"
    using sig nonneg by (intro ds_nerf_depth_loss_value) auto
  also have "\<dots> = Some (sum_list (map ?F ?Z) / real ?B)"
    using ne lZ by (auto simp: torch_mean_def)
  also have "sum_list (map ?F ?Z) = (\<Sum>b < ?B. ?F (?Z ! b))"
    unfolding sum_list_map_nth lZ ..
  also have "\<dots> = (\<Sum>b < ?B. ?G b)"
    by (rule sum.cong) (simp_all only: FG lessThan_iff)
  finally have "ds_nerf_depth_loss weights ?D ?steps ?lengths sigma
                = Some ((\<Sum>b < ?B. ?G b) / real ?B)" .
  then show ?thesis
    by (simp add: depth_loss_def Let_def)
qed

text \<open>One valid and one invalid ray: the sum of the valid ray is halved.\<close>

theorem depth_loss_ds_nerf_mean_over_all_rays_witness:
  "depth_loss [[1 / 2], [1 / 2]]
     \<lparr>frustums = \<lparr>starts = [[0], [0]], ends = [[2], [2]]\<rparr>, spacing_starts = None,
      spacing_ends = None\<rparr>
     [1, 0] [1, 1] 1 [1, 1] True (EnumMember DS_NERF)
   = Inr (Some (- ln (1 / 2 + EPS)))"
  using depth_loss_ds_nerf_mean_over_all_rays[of "[1, 0]" "[[1 / 2], [1 / 2]]"
      "\<lparr>frustums = \<lparr>starts = [[0], [0]], ends = [[2], [2]]\<rparr>, spacing_starts = None,
        spacing_ends = None\<rparr>" "[1, 1]" 1 True "[1, 1]"]
  by (simp add: Let_def lessThan_Suc numeral_2_eq_2 less_Suc_eq)

subsection \<open>Line-of-sight loss\<close>

lemma near_beyond_unconstrained:
  assumes sig: "0 < sigma" and l: "length ws' = length ws"
    and d: "\<forall>i < length ws. i < length ss \<longrightarrow> ws ! i \<noteq> ws' ! i \<longrightarrow> ss ! i > dep + sigma"
  shows "line_of_sight_loss_near sigma dep ws ss = line_of_sight_loss_near sigma dep ws' ss"
proof -
  let ?f = "\<lambda>w s. of_bool (s \<le> dep + sigma \<and> s \<ge> dep - sigma)
                 * (w - exp (normal_log_prob 0 (sigma / URF_SIGMA_SCALE_FACTOR) (s - dep))) ^ 2 :: real"
  have "map2 ?f ws ss = map2 ?f ws' ss"
  proof (rule nth_equalityI)
    show "length (map2 ?f ws ss) = length (map2 ?f ws' ss)" using l by simp
  next
    fix i assume "i < length (map2 ?f ws ss)"
    then have i: "i < length ws" "i < length ss" by simp_all
    show "map2 ?f ws ss ! i = map2 ?f ws' ss ! i"
    proof (cases "ws ! i = ws' ! i")
      case True with i l show ?thesis by simp
    next
      case False
      with d i have "ss ! i > dep + sigma" by blast
      with i l show ?thesis by simp
    qed
  qed
  then show ?thesis by (simp only: line_of_sight_loss_near_def)
qed

lemma empty_beyond_unconstrained:
  assumes sig: "0 < sigma" and l: "length ws' = length ws"
    and d: "\<forall>i < length ws. i < length ss \<longrightarrow> ws ! i \<noteq> ws' ! i \<longrightarrow> ss ! i > dep + sigma"
  shows "line_of_sight_loss_empty sigma dep ws ss = line_of_sight_loss_empty sigma dep ws' ss"
proof -
  let ?f = "\<lambda>w s. of_bool (s < dep - sigma) * w ^ 2 :: real"
  have "map2 ?f ws ss = map2 ?f ws' ss"
  proof (rule nth_equalityI)
    show "length (map2 ?f ws ss) = length (map2 ?f ws' ss)" using l by simp
  next
    fix i assume "i < length (map2 ?f ws ss)"
    then have i: "i < length ws" "i < length ss" by simp_all
    show "map2 ?f ws ss ! i = map2 ?f ws' ss ! i"
    proof (cases "ws ! i = ws' ! i")
      case True with i l show ?thesis by simp
    next
      case False
      with d i have "ss ! i > dep + sigma" by blast
      with sig have "\<not> ss ! i < dep - sigma" by linarith
      with i l show ?thesis by simp
    qed
  qed
  then show ?thesis by (simp only: line_of_sight_loss_empty_def)
qed

lemma urf_beyond_unconstrained:
  assumes sig: "0 < sigma" and l: "length weights' = length weights"
    and rl: "\<forall>b < length weights. length (weights' ! b) = length (weights ! b)"
    and d: "\<forall>b < length weights. \<forall>i < length (weights ! b).
              weights ! b ! i \<noteq> weights' ! b ! i \<longrightarrow>
              b < length termination_depth \<and> b < length steps \<and> i < length (steps ! b)
              \<and> steps ! b ! i > termination_depth ! b + sigma"
  shows "urban_radiance_field_depth_loss weights termination_depth predicted_depth steps sigma
         = urban_radiance_field_depth_loss weights' termination_depth predicted_depth steps sigma"
proof -
  let ?g = "\<lambda>(dep, ws, ss). line_of_sight_loss_near sigma dep ws ss
                                     + line_of_sight_loss_empty sigma dep ws ss"
  let ?Z = "zip termination_depth (zip weights steps)"
  let ?Z' = "zip termination_depth (zip weights' steps)"
  have "map ?g ?Z = map ?g ?Z'"
  proof (rule nth_equalityI)
    show "length (map ?g ?Z) = length (map ?g ?Z')" using l by simp
  next
    fix b assume "b < length (map ?g ?Z)"
    then have b: "b < length termination_depth" "b < length weights" "b < length steps" by simp_all
    have dd: "\<forall>i < length (weights ! b). i < length (steps ! b) \<longrightarrow>
                weights ! b ! i \<noteq> weights' ! b ! i \<longrightarrow>
                steps ! b ! i > termination_depth ! b + sigma"
      using d b by blast
    have ll: "length (weights' ! b) = length (weights ! b)" using rl b by blast
    show "map ?g ?Z ! b = map ?g ?Z' ! b"
      using b l near_beyond_unconstrained[OF sig ll dd] empty_beyond_unconstrained[OF sig ll dd]
      by simp
  qed
  then show ?thesis
    by (simp only: urban_radiance_field_depth_loss_def Let_def)
qed

lemma sum_list_map_update:
  fixes f :: "'a \<Rightarrow> real"
  shows "i < length xs \<Longrightarrow>
         sum_list (map f (xs[i := v])) = sum_list (map f xs) - f (xs ! i) + f v"
proof (induction xs arbitrary: i)
  case Nil then show ?case by simp
next
  case (Cons x xs) then show ?case by (cases i) auto
qed

lemma empty_penalty_increases:
  assumes i: "i < length ws" "i < length ss"
    and e: "ss ! i < dep - sigma" and nz: "ws ! i \<noteq> 0"
  shows "line_of_sight_loss_empty sigma dep (ws[i := 0]) ss
         < line_of_sight_loss_empty sigma dep ws ss"
proof -
  let ?f = "\<lambda>(w, s). of_bool (s < dep - sigma) * w ^ 2 :: real"
  have z: "zip (ws[i := 0]) ss = (zip ws ss)[i := (0, ss ! i)]"
    by (simp add: update_zip)
  have "sum_list (map ?f ((zip ws ss)[i := (0, ss ! i)]))
        = sum_list (map ?f (zip ws ss)) - ?f (zip ws ss ! i) + ?f (0, ss ! i)"
    using i by (intro sum_list_map_update) simp
  also have "\<dots> = sum_list (map ?f (zip ws ss)) - (ws ! i) ^ 2"
    using i e by simp
  also have "\<dots> < sum_list (map ?f (zip ws ss))"
    using nz by simp
  finally show ?thesis
    unfolding line_of_sight_loss_empty_def z .
qed

lemma near_outside_window:
  assumes l: "length ws' = length ws"
    and d: "\<forall>i < length ws. i < length ss \<longrightarrow> ws ! i \<noteq> ws' ! i \<longrightarrow>
              \<not> (ss ! i \<le> dep + sigma \<and> ss ! i \<ge> dep - sigma)"
  shows "line_of_sight_loss_near sigma dep ws ss = line_of_sight_loss_near sigma dep ws' ss"
proof -
  let ?f = "\<lambda>w s. of_bool (s \<le> dep + sigma \<and> s \<ge> dep - sigma)
                 * (w - exp (normal_log_prob 0 (sigma / URF_SIGMA_SCALE_FACTOR) (s - dep))) ^ 2 :: real"
  have "map2 ?f ws ss = map2 ?f ws' ss"
  proof (rule nth_equalityI)
    show "length (map2 ?f ws ss) = length (map2 ?f ws' ss)" using l by simp
  next
    fix i assume "i < length (map2 ?f ws ss)"
    then have i: "i < length ws" "i < length ss" by simp_all
    show "map2 ?f ws ss ! i = map2 ?f ws' ss ! i"
    proof (cases "ws ! i = ws' ! i")
      case True with i l show ?thesis by simp
    next
      case False
      with d i have "\<not> (ss ! i \<le> dep + sigma \<and> ss ! i \<ge> dep - sigma)" by blast
      with i l show ?thesis by simp
    qed
  qed
  then show ?thesis by (simp only: line_of_sight_loss_near_def)
qed

lemma near_zeroed_empty_sample:
  assumes i: "i < length ws" "i < length ss" and e: "ss ! i < dep - sigma"
  shows "line_of_sight_loss_near sigma dep (ws[i := 0]) ss = line_of_sight_loss_near sigma dep ws ss"
proof (rule near_outside_window[symmetric])
  show "length (ws[i := 0]) = length ws" by simp
  show "\<forall>j < length ws. j < length ss \<longrightarrow> ws ! j \<noteq> ws[i := 0] ! j \<longrightarrow>
          \<not> (ss ! j \<le> dep + sigma \<and> ss ! j \<ge> dep - sigma)"
  proof (intro allI impI)
    fix j assume j: "j < length ws" "j < length ss" "ws ! j \<noteq> ws[i := 0] ! j"
    then have "j = i" by (cases "j = i") simp_all
    with e show "\<not> (ss ! j \<le> dep + sigma \<and> ss ! j \<ge> dep - sigma)" by simp
  qed
qed

lemma empty_penalty_difference:
  assumes i: "i < length ws" "i < length ss" and e: "ss ! i < dep - sigma"
  shows "line_of_sight_loss_empty sigma dep ws ss
         = line_of_sight_loss_empty sigma dep (ws[i := 0]) ss + (ws ! i) ^ 2"
proof -
  let ?f = "\<lambda>(w, s). of_bool (s < dep - sigma) * w ^ 2 :: real"
  have z: "zip (ws[i := 0]) ss = (zip ws ss)[i := (0, ss ! i)]"
    by (simp add: update_zip)
  have "sum_list (map ?f ((zip ws ss)[i := (0, ss ! i)]))
        = sum_list (map ?f (zip ws ss)) - ?f (zip ws ss ! i) + ?f (0, ss ! i)"
    using i by (intro sum_list_map_update) simp
  also have "\<dots> = sum_list (map ?f (zip ws ss)) - (ws ! i) ^ 2"
    using i e by simp
  finally show ?thesis
    unfolding line_of_sight_loss_empty_def z by simp
qed

lemma urf_loss_value:
  assumes sig: "0 < sigma"
  shows "urban_radiance_field_depth_loss weights termination_depth predicted_depth steps sigma
         = Inr (torch_mean
              (map (\<lambda>((d, p), ws, ss).
                      ((d - p) ^ 2 + (line_of_sight_loss_near sigma d ws ss
                                      + line_of_sight_loss_empty sigma d ws ss)) * of_bool (d > 0))
                 (zip (zip termination_depth predicted_depth) (zip weights steps))))"
proof -
  have ns: "\<not> sigma / URF_SIGMA_SCALE_FACTOR \<le> 0"
    using sig by (simp add: URF_SIGMA_SCALE_FACTOR_def)
  let ?g = "\<lambda>(d, ws, ss). line_of_sight_loss_near sigma d ws ss
                                     + line_of_sight_loss_empty sigma d ws ss"
  have "map2 (\<lambda>(e, l) m. (e + l) * of_bool m)
          (zip (map2 (\<lambda>d p. (d - p) ^ 2) termination_depth predicted_depth)
               (map ?g (zip termination_depth (zip weights steps))))
          (map (\<lambda>d. d > 0) termination_depth)
        = map (\<lambda>((d, p), ws, ss).
                      ((d - p) ^ 2 + (line_of_sight_loss_near sigma d ws ss
                                      + line_of_sight_loss_empty sigma d ws ss)) * of_bool (d > 0))
                 (zip (zip termination_depth predicted_depth) (zip weights steps))"
    by (rule nth_equalityI) auto
  then show ?thesis
    using ns by (simp add: urban_radiance_field_depth_loss_def Let_def)
qed

lemma sum_list_differ_at:
  fixes xs ys :: "real list"
  assumes "length ys = length xs" "b < length xs"
    and "\<forall>j < length xs. j \<noteq> b \<longrightarrow> ys ! j = xs ! j"
  shows "sum_list xs = sum_list ys + (xs ! b - ys ! b)"
proof -
  have "ys = xs[b := ys ! b]"
    using assms by (intro nth_equalityI) (auto simp: nth_list_update)
  then have "sum_list ys = sum_list (map (\<lambda>x. x) (xs[b := ys ! b]))" by simp
  also have "\<dots> = sum_list (map (\<lambda>x. x) xs) - xs ! b + ys ! b"
    using assms(2) by (rule sum_list_map_update)
  finally show ?thesis by simp
qed

lemma urf_empty_region_weight_increases_loss:
  assumes sig: "0 < sigma"
    and b: "b < length weights"
    and ld: "length termination_depth = length weights"
    and lp: "length predicted_depth = length weights"
    and ls: "length steps = length weights"
    and i: "i < length (weights ! b)" "i < length (steps ! b)"
    and e: "steps ! b ! i < termination_depth ! b - sigma"
    and v: "termination_depth ! b > 0"
  shows "\<exists>v v0. urban_radiance_field_depth_loss weights termination_depth predicted_depth steps
                  sigma = Inr (Some v)
              \<and> urban_radiance_field_depth_loss (weights[b := (weights ! b)[i := 0]])
                  termination_depth predicted_depth steps sigma = Inr (Some v0)
              \<and> v = v0 + (weights ! b ! i) ^ 2 / real (length weights)"
proof -
  let ?V = "weights[b := (weights ! b)[i := 0]]"
  let ?F = "\<lambda>((d, p), ws, ss).
              ((d - p) ^ 2 + (line_of_sight_loss_near sigma d ws ss
                              + line_of_sight_loss_empty sigma d ws ss)) * of_bool (d > 0)"
  let ?Z = "zip (zip termination_depth predicted_depth) (zip weights steps)"
  let ?Y = "zip (zip termination_depth predicted_depth) (zip ?V steps)"
  have lZ: "length (map ?F ?Z) = length weights" "length (map ?F ?Y) = length weights"
    using ld lp ls by simp_all
  have ne: "map ?F ?Z \<noteq> []" "map ?F ?Y \<noteq> []"
    using lZ b by auto
  have other: "\<forall>j < length (map ?F ?Z). j \<noteq> b \<longrightarrow> map ?F ?Y ! j = map ?F ?Z ! j"
  proof (intro allI impI)
    fix j assume j: "j < length (map ?F ?Z)" "j \<noteq> b"
    then have "?V ! j = weights ! j" by simp
    with j ld lp ls show "map ?F ?Y ! j = map ?F ?Z ! j" by simp
  qed
  let ?d = "termination_depth ! b"
  have nb: "map ?F ?Z ! b
            = ((?d - predicted_depth ! b) ^ 2
               + (line_of_sight_loss_near sigma ?d (weights ! b) (steps ! b)
                  + line_of_sight_loss_empty sigma ?d (weights ! b) (steps ! b)))"
    using b ld lp ls v by simp
  have nb0: "map ?F ?Y ! b
            = ((?d - predicted_depth ! b) ^ 2
               + (line_of_sight_loss_near sigma ?d ((weights ! b)[i := 0]) (steps ! b)
                  + line_of_sight_loss_empty sigma ?d ((weights ! b)[i := 0]) (steps ! b)))"
    using b ld lp ls v by simp
  have atb: "map ?F ?Z ! b - map ?F ?Y ! b = (weights ! b ! i) ^ 2"
    unfolding nb nb0 near_zeroed_empty_sample[OF i e] empty_penalty_difference[OF i e]
    by simp
  have "sum_list (map ?F ?Z) = sum_list (map ?F ?Y) + (map ?F ?Z ! b - map ?F ?Y ! b)"
    by (rule sum_list_differ_at) (use lZ b other in simp_all)
  then have s: "sum_list (map ?F ?Z) = sum_list (map ?F ?Y) + (weights ! b ! i) ^ 2"
    unfolding atb .
  have "torch_mean (map ?F ?Z) = Some (sum_list (map ?F ?Z) / real (length weights))"
    using ne lZ by (simp add: torch_mean_def)
  moreover have "torch_mean (map ?F ?Y) = Some (sum_list (map ?F ?Y) / real (length weights))"
    using ne lZ by (simp add: torch_mean_def)
  moreover have "sum_list (map ?F ?Z) / real (length weights)
        = sum_list (map ?F ?Y) / real (length weights)
          + (weights ! b ! i) ^ 2 / real (length weights)"
    unfolding s by (simp add: add_divide_distrib)
  ultimately show ?thesis
    unfolding urf_loss_value[OF sig] by simp
qed

text \<open>
  Claim C6. For a positive \<open>sigma\<close>, two weight tensors of the same shape that differ only
  at samples whose step lies beyond \<open>termination_depth + sigma\<close> give the same
  \<open>urban_radiance_field_depth_loss\<close>. At a sample whose step lies before
  \<open>termination_depth - sigma\<close> a weight \<open>w\<close> that is not zero makes the empty-region penalty
  of its ray strictly larger than it is with that weight set to zero; and when the ray has
  a positive ground-truth depth, the loss that \<open>urban_radiance_field_depth_loss\<close> returns is
  larger by \<open>w\<^sup>2\<close> divided by the number of rays, so strictly larger.
\<close>

theorem urf_samples_beyond_surface_unconstrained:
  assumes "0 < sigma" and "length weights' = length weights"
    and "\<forall>b < length weights. length (weights' ! b) = length (weights ! b)"
    and "\<forall>b < length weights. \<forall>i < length (weights ! b).
              weights ! b ! i \<noteq> weights' ! b ! i \<longrightarrow>
              b < length termination_depth \<and> b < length steps \<and> i < length (steps ! b)
              \<and> steps ! b ! i > termination_depth ! b + sigma"
  shows "urban_radiance_field_depth_loss weights termination_depth predicted_depth steps sigma
         = urban_radiance_field_depth_loss weights' termination_depth predicted_depth steps sigma
         \<and> (\<forall>b i. b < length weights \<and> b < length termination_depth \<and> b < length steps
                  \<and> i < length (weights ! b) \<and> i < length (steps ! b)
                  \<and> steps ! b ! i < termination_depth ! b - sigma \<and> weights ! b ! i \<noteq> 0
               \<longrightarrow> line_of_sight_loss_empty sigma (termination_depth ! b)
                     ((weights ! b)[i := 0]) (steps ! b)
                   < line_of_sight_loss_empty sigma (termination_depth ! b)
                       (weights ! b) (steps ! b))
         \<and> (\<forall>b i. b < length weights \<and> length termination_depth = length weights
                  \<and> length predicted_depth = length weights \<and> length steps = length weights
                  \<and> i < length (weights ! b) \<and> i < length (steps ! b)
                  \<and> steps ! b ! i < termination_depth ! b - sigma \<and> weights ! b ! i \<noteq> 0
                  \<and> termination_depth ! b > 0
               \<longrightarrow> (\<exists>v v0.
                      urban_radiance_field_depth_loss weights termination_depth predicted_depth
                        steps sigma = Inr (Some v)
                    \<and> urban_radiance_field_depth_loss (weights[b := (weights ! b)[i := 0]])
                        termination_depth predicted_depth steps sigma = Inr (Some v0)
                    \<and> v = v0 + (weights ! b ! i) ^ 2 / real (length weights)
                    \<and> v0 < v))"
proof (intro conjI allI impI)
  show "urban_radiance_field_depth_loss weights termination_depth predicted_depth steps sigma
        = urban_radiance_field_depth_loss weights' termination_depth predicted_depth steps sigma"
    using assms by (intro urf_beyond_unconstrained) auto
next
  fix b i
  assume "b < length weights \<and> b < length termination_depth \<and> b < length steps
          \<and> i < length (weights ! b) \<and> i < length (steps ! b)
          \<and> steps ! b ! i < termination_depth ! b - sigma \<and> weights ! b ! i \<noteq> 0"
  then show "line_of_sight_loss_empty sigma (termination_depth ! b)
               ((weights ! b)[i := 0]) (steps ! b)
             < line_of_sight_loss_empty sigma (termination_depth ! b) (weights ! b) (steps ! b)"
    by (intro empty_penalty_increases) auto
next
  fix b i
  assume h: "b < length weights \<and> length termination_depth = length weights
          \<and> length predicted_depth = length weights \<and> length steps = length weights
          \<and> i < length (weights ! b) \<and> i < length (steps ! b)
          \<and> steps ! b ! i < termination_depth ! b - sigma \<and> weights ! b ! i \<noteq> 0
          \<and> termination_depth ! b > 0"
  then have "\<exists>v v0.
        urban_radiance_field_depth_loss weights termination_depth predicted_depth
          steps sigma = Inr (Some v)
      \<and> urban_radiance_field_depth_loss (weights[b := (weights ! b)[i := 0]])
          termination_depth predicted_depth steps sigma = Inr (Some v0)
      \<and> v = v0 + (weights ! b ! i) ^ 2 / real (length weights)"
    using assms(1) by (intro urf_empty_region_weight_increases_loss) auto
  then obtain v v0 where
    r: "urban_radiance_field_depth_loss weights termination_depth predicted_depth
          steps sigma = Inr (Some v)"
       "urban_radiance_field_depth_loss (weights[b := (weights ! b)[i := 0]])
          termination_depth predicted_depth steps sigma = Inr (Some v0)"
       "v = v0 + (weights ! b ! i) ^ 2 / real (length weights)"
    by blast
  from h have "0 < (weights ! b ! i) ^ 2" "0 < real (length weights)" by auto
  then have "0 < (weights ! b ! i) ^ 2 / real (length weights)" by (rule divide_pos_pos)
  with r(3) have "v0 < v" by simp
  with r show "\<exists>v v0.
        urban_radiance_field_depth_loss weights termination_depth predicted_depth
          steps sigma = Inr (Some v)
      \<and> urban_radiance_field_depth_loss (weights[b := (weights ! b)[i := 0]])
          termination_depth predicted_depth steps sigma = Inr (Some v0)
      \<and> v = v0 + (weights ! b ! i) ^ 2 / real (length weights)
      \<and> v0 < v"
    by blast
qed

text \<open>
  One ray of depth \<open>1\<close> with \<open>sigma = 1/2\<close>: the sample at step \<open>3\<close> is beyond the surface,
  the sample at step \<open>0\<close> is in the empty region and carries the weight \<open>1\<close>.
\<close>

theorem urf_samples_beyond_surface_unconstrained_witness:
  "urban_radiance_field_depth_loss [[1, 1]] [1] [1] [[0, 3]] (1 / 2)
   = urban_radiance_field_depth_loss [[1, 5]] [1] [1] [[0, 3]] (1 / 2)
   \<and> line_of_sight_loss_empty (1 / 2) 1 [0, 1] [0, 3]
     < line_of_sight_loss_empty (1 / 2) 1 [1, 1] [0, 3]
   \<and> (\<exists>v v0. urban_radiance_field_depth_loss [[1, 1]] [1] [1] [[0, 3]] (1 / 2) = Inr (Some v)
            \<and> urban_radiance_field_depth_loss [[0, 1]] [1] [1] [[0, 3]] (1 / 2) = Inr (Some v0)
            \<and> v = v0 + 1 \<and> v0 < v)"
proof -
  have h: "\<forall>b < length [[1, 1 :: real]]. \<forall>i < length ([[1, 1]] ! b).
              [[1, 1]] ! b ! i \<noteq> [[1, 5]] ! b ! i \<longrightarrow>
              b < length [1 :: real] \<and> b < length [[0, 3 :: real]] \<and> i < length ([[0, 3 :: real]] ! b)
              \<and> [[0, 3]] ! b ! i > [1] ! b + (1 / 2 :: real)"
    by (simp add: less_Suc_eq)
  have s: "(0 :: real) < 1 / 2" by simp
  have l: "length [[1, 5 :: real]] = length [[1, 1 :: real]]" by simp
  have r: "\<forall>b < length [[1, 1 :: real]]. length ([[1, 5 :: real]] ! b) = length ([[1, 1 :: real]] ! b)"
    by simp
  note t = urf_samples_beyond_surface_unconstrained[OF s l r h, of "[1]"]
  from t have c1: "urban_radiance_field_depth_loss [[1, 1]] [1] [1] [[0, 3]] (1 / 2)
         = urban_radiance_field_depth_loss [[1, 5]] [1] [1] [[0, 3]] (1 / 2)"
    by (elim conjE)
  from t have "line_of_sight_loss_empty (1 / 2) ([1] ! 0) (([[1, 1]] ! 0)[0 := 0]) ([[0, 3]] ! 0)
                   < line_of_sight_loss_empty (1 / 2) ([1] ! 0) ([[1, 1]] ! 0) ([[0, 3]] ! 0)"
    by (elim conjE allE[where x = 0] impE) simp_all
  then have c2: "line_of_sight_loss_empty (1 / 2) 1 [0, 1] [0, 3]
     < line_of_sight_loss_empty (1 / 2) 1 [1, 1] [0, 3]"
    by simp
  from t have "\<exists>v v0.
        urban_radiance_field_depth_loss [[1, 1]] [1] [1] [[0, 3]] (1 / 2) = Inr (Some v)
      \<and> urban_radiance_field_depth_loss ([[1, 1]][0 := ([[1, 1]] ! 0)[0 := 0]])
          [1] [1] [[0, 3]] (1 / 2) = Inr (Some v0)
      \<and> v = v0 + ([[1, 1]] ! 0 ! 0) ^ 2 / real (length [[1, 1 :: real]])
      \<and> v0 < v"
    by (elim conjE allE[where x = 0] impE) simp_all
  then have c3: "\<exists>v v0. urban_radiance_field_depth_loss [[1, 1]] [1] [1] [[0, 3]] (1 / 2) = Inr (Some v)
            \<and> urban_radiance_field_depth_loss [[0, 1]] [1] [1] [[0, 3]] (1 / 2) = Inr (Some v0)
            \<and> v = v0 + 1 \<and> v0 < v"
    by simp
  from c1 c2 c3 show ?thesis by blast
qed

subsection \<open>Adversarial loss in discriminator mode\<close>

lemma step_not_global: "losses_globals ''step'' = None"
  by (simp add: losses_globals_def losses_module_names_def)

text \<open>
  Claim C5 does not hold of the code: in discriminator mode \<open>forward\<close> computes the two
  softplus means and then evaluates \<^verbatim>\<open>step % self.reg_step\<close>, where \<^verbatim>\<open>step\<close> is bound neither
  in the function nor in the module; every call with two predictions raises \<open>NameError\<close>
  and returns no loss.
\<close>

theorem GANLoss_forward_discriminator_raises:
  "GANLoss_forward losses_globals autograd \<lparr>m_type = ''D'', r1_gamma = g, reg_step = k\<rparr>
     [fake_pred, real_pred] kwargs = Inl (NameError ''step'')"
  by (simp add: GANLoss_forward_def step_not_global)


subsection \<open>Scale and shift invariance\<close>

lemma sum_list_lin4:
  fixes f1 f2 f3 f4 f5 :: "'a \<Rightarrow> real"
  shows "(\<Sum>x\<leftarrow>xs. c1 * f1 x + c2 * f2 x + c3 * f3 x + c4 * f4 x)
         = c1 * (\<Sum>x\<leftarrow>xs. f1 x) + c2 * (\<Sum>x\<leftarrow>xs. f2 x) + c3 * (\<Sum>x\<leftarrow>xs. f3 x)
           + c4 * (\<Sum>x\<leftarrow>xs. f4 x)"
  by (induction xs) (simp_all add: algebra_simps)

lemma alignment_unique_on_mask:
  fixes X :: "(real \<times> real \<times> real) list"
  assumes nn: "\<forall>(mi, xi, ti) \<in> set X. 0 \<le> mi"
    and N1: "(\<Sum>(mi, xi, ti) \<leftarrow> X. mi * (s * xi + h - ti) * xi) = 0"
    and N2: "(\<Sum>(mi, xi, ti) \<leftarrow> X. mi * (s * xi + h - ti)) = 0"
    and N1': "(\<Sum>(mi, xi, ti) \<leftarrow> X. mi * (s' * (a * xi + b) + h' - ti) * (a * xi + b)) = 0"
    and N2': "(\<Sum>(mi, xi, ti) \<leftarrow> X. mi * (s' * (a * xi + b) + h' - ti)) = 0"
    and a: "a \<noteq> 0"
  shows "\<forall>(mi, xi, ti) \<in> set X. mi \<noteq> 0 \<longrightarrow> s' * (a * xi + b) + h' = s * xi + h"
proof -
  define al where "al = s' * a - s"
  define be where "be = s' * b + h' - h"
  let ?A' = "\<lambda>(mi, xi, ti). mi * (s' * (a * xi + b) + h' - ti) * (a * xi + b)"
  let ?B' = "\<lambda>(mi, xi, ti). mi * (s' * (a * xi + b) + h' - ti)"
  let ?A = "\<lambda>(mi, xi, ti). mi * (s * xi + h - ti) * xi"
  let ?B = "\<lambda>(mi, xi, ti). mi * (s * xi + h - ti)"
  let ?Q = "\<lambda>(mi, xi, ti). mi * (al * xi + be) ^ 2"
  have pt: "?Q x = (al / a) * ?A' x + (be - al * b / a) * ?B' x + (- al) * ?A x + (- be) * ?B x"
    for x :: "real \<times> real \<times> real"
  proof -
    obtain mi xi ti where x: "x = (mi, xi, ti)" by (cases x) auto
    show ?thesis
      unfolding x prod.case al_def be_def using a
      by (simp add: field_simps power2_eq_square)
  qed
  have "(\<Sum>x\<leftarrow>X. ?Q x)
        = (al / a) * (\<Sum>x\<leftarrow>X. ?A' x) + (be - al * b / a) * (\<Sum>x\<leftarrow>X. ?B' x)
          + (- al) * (\<Sum>x\<leftarrow>X. ?A x) + (- be) * (\<Sum>x\<leftarrow>X. ?B x)"
    unfolding pt by (rule sum_list_lin4)
  then have z: "(\<Sum>x\<leftarrow>X. ?Q x) = 0"
    unfolding N1 N2 N1' N2' by simp
  have "\<forall>q \<in> set (map ?Q X). q = 0"
  proof (subst sum_list_nonneg_eq_0_iff[symmetric])
    fix q assume "q \<in> set (map ?Q X)"
    then obtain x where "x \<in> set X" "q = ?Q x" by auto
    with nn show "0 \<le> q" by (cases x) auto
  next
    show "sum_list (map ?Q X) = 0" by (rule z)
  qed
  then have q0: "?Q x = 0" if "x \<in> set X" for x using that by simp
  show ?thesis
  proof (clarify)
    fix mi xi ti assume "(mi, xi, ti) \<in> set X" "mi \<noteq> 0"
    with q0[of "(mi, xi, ti)"] have "al * xi + be = 0" by simp
    then show "s' * (a * xi + b) + h' = s * xi + h"
      unfolding al_def be_def by (simp add: algebra_simps)
  qed
qed

lemma map2_nested_right:
  "map2 g ms (map2 f (map k ps) ts) = map (\<lambda>(m, p, t). g m (f (k p) t)) (zip ms (zip ps ts))"
proof (induction ms arbitrary: ps ts)
  case Nil then show ?case by simp
next
  case (Cons m ms) then show ?case by (cases ps; cases ts) auto
qed

lemma map2_nested_left:
  "map2 g (map2 f (map k ps) ts) ms = map (\<lambda>(m, p, t). g (f (k p) t) m) (zip ms (zip ps ts))"
proof (induction ms arbitrary: ps ts)
  case Nil then show ?case by simp
next
  case (Cons m ms) then show ?case by (cases ps; cases ts) auto
qed

lemma img_masked_right:
  "img_map2 g m (img_map2 f (map (map k) p) t)
   = map (\<lambda>(mr, pr, tr). map (\<lambda>(mi, xi, ti). g mi (f (k xi) ti)) (zip mr (zip pr tr)))
       (zip m (zip p t))"
  unfolding img_map2_def map2_nested_right ..

lemma img_masked_left:
  "img_map2 g (img_map2 f (map (map k) p) t) m
   = map (\<lambda>(mr, pr, tr). map (\<lambda>(mi, xi, ti). g (f (k xi) ti) mi) (zip mr (zip pr tr)))
       (zip m (zip p t))"
  unfolding img_map2_def map2_nested_left ..

lemma img3_cong:
  assumes "\<forall>x \<in> set (pixels m p t). G x = G' x"
  shows "map (\<lambda>(mr, pr, tr). map G (zip mr (zip pr tr))) (zip m (zip p t))
         = map (\<lambda>(mr, pr, tr). map G' (zip mr (zip pr tr))) (zip m (zip p t))"
proof (rule map_cong[OF refl])
  fix r assume r: "r \<in> set (zip m (zip p t))"
  obtain mr pr tr where re: "r = (mr, pr, tr)" by (cases r) auto
  have "\<And>x. x \<in> set (zip mr (zip pr tr)) \<Longrightarrow> G x = G' x"
    using assms r unfolding pixels_def re by force
  then show "(case r of (mr, pr, tr) \<Rightarrow> map G (zip mr (zip pr tr)))
           = (case r of (mr, pr, tr) \<Rightarrow> map G' (zip mr (zip pr tr)))"
    unfolding re by simp
qed

lemma masked_diff_cong:
  assumes "\<forall>(mi, xi, ti) \<in> set (pixels m p t). mi \<noteq> 0 \<longrightarrow> k' xi = k xi"
  shows "img_map2 (*) m (img_map2 (-) (map (map k') p) t)
         = img_map2 (*) m (img_map2 (-) (map (map k) p) t)"
  unfolding img_masked_right
  by (rule img3_cong) (use assms in auto)

lemma masked_sq_cong:
  assumes "\<forall>(mi, xi, ti) \<in> set (pixels m p t). mi \<noteq> 0 \<longrightarrow> k' xi = k xi"
  shows "img_map2 (*) (img_map2 (\<lambda>p t. (p - t) ^ 2) (map (map k') p) t) m
         = img_map2 (*) (img_map2 (\<lambda>p t. (p - t) ^ 2) (map (map k) p) t) m"
  unfolding img_masked_left
  by (rule img3_cong) (use assms in auto)

lemma zip_map_middle:
  "zip ms (zip (map f ps) ts) = map (\<lambda>(m, p, t). (m, f p, t)) (zip ms (zip ps ts))"
proof (induction ms arbitrary: ps ts)
  case Nil then show ?case by simp
next
  case (Cons m ms) then show ?case by (cases ps; cases ts) auto
qed

lemma pixels_map_prediction:
  "pixels m (map (map f) p) t = map (\<lambda>(mi, xi, ti). (mi, f xi, ti)) (pixels m p t)"
  unfolding pixels_def zip_map_middle[of m "map f" p t]
  by (simp add: map_concat o_def case_prod_unfold zip_map_middle)

lemma pixels_mask_nonneg:
  assumes "\<forall>row \<in> set m. \<forall>x \<in> set row. 0 \<le> x"
  shows "\<forall>(mi, xi, ti) \<in> set (pixels m p t). 0 \<le> mi"
proof (clarify)
  fix mi xi ti assume "(mi, xi, ti) \<in> set (pixels m p t)"
  then obtain mr pr tr where r: "(mr, pr, tr) \<in> set (zip m (zip p t))"
    and x: "(mi, xi, ti) \<in> set (zip mr (zip pr tr))"
    unfolding pixels_def by auto
  from r have "mr \<in> set m" by (rule set_zip_leftD)
  moreover from x have "mi \<in> set mr" by (rule set_zip_leftD)
  ultimately show "0 \<le> mi" using assms by blast
qed

lemma image_alignment_agree:
  assumes al: "is_alignment s h p t m"
    and al': "is_alignment s' h' (map (map (\<lambda>x. a * x + b)) p) t m"
    and nn: "\<forall>row \<in> set m. \<forall>x \<in> set row. 0 \<le> x"
    and a: "a \<noteq> 0"
  shows "\<forall>(mi, xi, ti) \<in> set (pixels m p t). mi \<noteq> 0 \<longrightarrow> s' * (a * xi + b) + h' = s * xi + h"
proof (rule alignment_unique_on_mask[OF pixels_mask_nonneg[OF nn] _ _ _ _ a])
  show "(\<Sum>(mi, xi, ti)\<leftarrow>pixels m p t. mi * (s * xi + h - ti) * xi) = 0"
    using al by (simp add: is_alignment_def)
  show "(\<Sum>(mi, xi, ti)\<leftarrow>pixels m p t. mi * (s * xi + h - ti)) = 0"
    using al by (simp add: is_alignment_def)
  show "(\<Sum>(mi, xi, ti)\<leftarrow>pixels m p t. mi * (s' * (a * xi + b) + h' - ti) * (a * xi + b)) = 0"
    using al' by (simp add: is_alignment_def pixels_map_prediction o_def case_prod_unfold)
  show "(\<Sum>(mi, xi, ti)\<leftarrow>pixels m p t. mi * (s' * (a * xi + b) + h' - ti)) = 0"
    using al' by (simp add: is_alignment_def pixels_map_prediction o_def case_prod_unfold)
qed

lemma stride_zip: "stride step (zip xs ys) = zip (stride step xs) (stride step ys)"
proof (induction step xs arbitrary: ys rule: stride.induct)
  case (1 step) then show ?case by simp
next
  case (2 step x xs) then show ?case by (cases ys) (simp_all add: drop_zip)
qed

lemma stride_map2: "stride step (map2 f xs ys) = map2 f (stride step xs) (stride step ys)"
  by (simp add: stride_map stride_zip)

lemma subsample_map2:
  "subsample step (map2 (img_map2 f) a b) = map2 (img_map2 f) (subsample step a) (subsample step b)"
proof -
  have img: "map (stride step) (stride step (img_map2 f x y))
             = img_map2 f (map (stride step) (stride step x)) (map (stride step) (stride step y))"
    for x y
    unfolding img_map2_def stride_map2 map_map2 map2_map_both stride_map2 ..
  show ?thesis
    unfolding subsample_def map_map2 map2_map_both img ..
qed

lemma aligned_nth:
  assumes "i < length prediction" "length scale = length prediction"
    "length shift = length prediction"
  shows "map (\<lambda>(s, h, img). map (map (\<lambda>x. s * x + h)) img) (zip scale (zip shift prediction)) ! i
         = map (map (\<lambda>x. scale ! i * x + shift ! i)) (prediction ! i)"
  using assms by simp

lemma aligned_images_agree:
  fixes a b :: real
  assumes a: "a \<noteq> 0"
    and ls: "length sc = length P" "length sh = length P"
    and ls': "length sc' = length P" "length sh' = length P"
    and al: "\<forall>i < length P. is_alignment (sc ! i) (sh ! i) (P ! i) (T ! i) (M ! i)"
    and al': "\<forall>i < length P. is_alignment (sc' ! i) (sh' ! i)
                 (map (map (map (\<lambda>x. a * x + b))) P ! i) (T ! i) (M ! i)"
    and nn: "\<forall>img \<in> set M. \<forall>row \<in> set img. \<forall>x \<in> set row. 0 \<le> x"
    and i: "i < length P" "i < length M"
  shows "\<forall>(mi, xi, ti) \<in> set (pixels (M ! i) (P ! i) (T ! i)).
           mi \<noteq> 0 \<longrightarrow> sc' ! i * (a * xi + b) + sh' ! i = sc ! i * xi + sh ! i"
proof (rule image_alignment_agree[OF _ _ _ a])
  show "is_alignment (sc ! i) (sh ! i) (P ! i) (T ! i) (M ! i)" using al i by blast
  show "is_alignment (sc' ! i) (sh' ! i) (map (map (\<lambda>x. a * x + b)) (P ! i)) (T ! i) (M ! i)"
    using al' i by auto
  show "\<forall>row \<in> set (M ! i). \<forall>x \<in> set row. 0 \<le> x"
    using nn i nth_mem[of i M] by blast
qed

lemma aligned_masked_diff:
  fixes a b :: real
  assumes a: "a \<noteq> 0"
    and ls: "length sc = length P" "length sh = length P"
    and ls': "length sc' = length P" "length sh' = length P"
    and al: "\<forall>i < length P. is_alignment (sc ! i) (sh ! i) (P ! i) (T ! i) (M ! i)"
    and al': "\<forall>i < length P. is_alignment (sc' ! i) (sh' ! i)
                 (map (map (map (\<lambda>x. a * x + b))) P ! i) (T ! i) (M ! i)"
    and nn: "\<forall>img \<in> set M. \<forall>row \<in> set img. \<forall>x \<in> set row. 0 \<le> x"
  shows "map2 (img_map2 (*)) M
           (map2 (img_map2 (-))
              (map (\<lambda>(s, h, img). map (map (\<lambda>x. s * x + h)) img)
                 (zip sc' (zip sh' (map (map (map (\<lambda>x. a * x + b))) P)))) T)
         = map2 (img_map2 (*)) M
             (map2 (img_map2 (-))
                (map (\<lambda>(s, h, img). map (map (\<lambda>x. s * x + h)) img) (zip sc (zip sh P))) T)"
    (is "map2 _ M (map2 _ ?ssi' T) = map2 _ M (map2 _ ?ssi T)")
proof (rule nth_equalityI)
  show "length (map2 (img_map2 (*)) M (map2 (img_map2 (-)) ?ssi' T))
        = length (map2 (img_map2 (*)) M (map2 (img_map2 (-)) ?ssi T))"
    using ls ls' by simp
next
  fix i assume "i < length (map2 (img_map2 (*)) M (map2 (img_map2 (-)) ?ssi' T))"
  then have i: "i < length P" "i < length M" "i < length T" using ls ls' by simp_all
  have s: "?ssi ! i = map (map (\<lambda>x. sc ! i * x + sh ! i)) (P ! i)"
    using i ls by (intro aligned_nth) simp_all
  have "?ssi' ! i = map (map (\<lambda>x. sc' ! i * x + sh' ! i))
                      (map (map (map (\<lambda>x. a * x + b))) P ! i)"
    using i ls' by (intro aligned_nth) simp_all
  then have s': "?ssi' ! i = map (map (\<lambda>x. sc' ! i * (a * x + b) + sh' ! i)) (P ! i)"
    using i by (simp add: o_def)
  have "img_map2 (*) (M ! i) (img_map2 (-) (?ssi' ! i) (T ! i))
        = img_map2 (*) (M ! i) (img_map2 (-) (?ssi ! i) (T ! i))"
    unfolding s s'
    by (rule masked_diff_cong)
       (rule aligned_images_agree[OF a ls ls' al al' nn i(1) i(2)])
  then show "map2 (img_map2 (*)) M (map2 (img_map2 (-)) ?ssi' T) ! i
             = map2 (img_map2 (*)) M (map2 (img_map2 (-)) ?ssi T) ! i"
    using i ls ls' by simp
qed

lemma aligned_masked_sq:
  fixes a b :: real
  assumes a: "a \<noteq> 0"
    and ls: "length sc = length P" "length sh = length P"
    and ls': "length sc' = length P" "length sh' = length P"
    and al: "\<forall>i < length P. is_alignment (sc ! i) (sh ! i) (P ! i) (T ! i) (M ! i)"
    and al': "\<forall>i < length P. is_alignment (sc' ! i) (sh' ! i)
                 (map (map (map (\<lambda>x. a * x + b))) P ! i) (T ! i) (M ! i)"
    and nn: "\<forall>img \<in> set M. \<forall>row \<in> set img. \<forall>x \<in> set row. 0 \<le> x"
  shows "map2 (img_map2 (*))
           (map2 (img_map2 (\<lambda>p t. (p - t) ^ 2))
              (map (\<lambda>(s, h, img). map (map (\<lambda>x. s * x + h)) img)
                 (zip sc' (zip sh' (map (map (map (\<lambda>x. a * x + b))) P)))) T) M
         = map2 (img_map2 (*))
             (map2 (img_map2 (\<lambda>p t. (p - t) ^ 2))
                (map (\<lambda>(s, h, img). map (map (\<lambda>x. s * x + h)) img) (zip sc (zip sh P))) T) M"
    (is "map2 _ (map2 _ ?ssi' T) M = map2 _ (map2 _ ?ssi T) M")
proof (rule nth_equalityI)
  show "length (map2 (img_map2 (*)) (map2 (img_map2 (\<lambda>p t. (p - t) ^ 2)) ?ssi' T) M)
        = length (map2 (img_map2 (*)) (map2 (img_map2 (\<lambda>p t. (p - t) ^ 2)) ?ssi T) M)"
    using ls ls' by simp
next
  fix i assume "i < length (map2 (img_map2 (*)) (map2 (img_map2 (\<lambda>p t. (p - t) ^ 2)) ?ssi' T) M)"
  then have i: "i < length P" "i < length M" "i < length T" using ls ls' by simp_all
  have s: "?ssi ! i = map (map (\<lambda>x. sc ! i * x + sh ! i)) (P ! i)"
    using i ls by (intro aligned_nth) simp_all
  have "?ssi' ! i = map (map (\<lambda>x. sc' ! i * x + sh' ! i))
                      (map (map (map (\<lambda>x. a * x + b))) P ! i)"
    using i ls' by (intro aligned_nth) simp_all
  then have s': "?ssi' ! i = map (map (\<lambda>x. sc' ! i * (a * x + b) + sh' ! i)) (P ! i)"
    using i by (simp add: o_def)
  have "img_map2 (*) (img_map2 (\<lambda>p t. (p - t) ^ 2) (?ssi' ! i) (T ! i)) (M ! i)
        = img_map2 (*) (img_map2 (\<lambda>p t. (p - t) ^ 2) (?ssi ! i) (T ! i)) (M ! i)"
    unfolding s s'
    by (rule masked_sq_cong)
       (rule aligned_images_agree[OF a ls ls' al al' nn i(1) i(2)])
  then show "map2 (img_map2 (*)) (map2 (img_map2 (\<lambda>p t. (p - t) ^ 2)) ?ssi' T) M ! i
             = map2 (img_map2 (*)) (map2 (img_map2 (\<lambda>p t. (p - t) ^ 2)) ?ssi T) M ! i"
    using i ls ls' by simp
qed

lemma gradient_loss_masked_diff:
  assumes "map2 (img_map2 (*)) M (map2 (img_map2 (-)) P1 T)
           = map2 (img_map2 (*)) M (map2 (img_map2 (-)) P2 T)"
  shows "gradient_loss mr self (subsample step P1) (subsample step T) (subsample step M)
         = gradient_loss mr self (subsample step P2) (subsample step T) (subsample step M)"
proof -
  have "map2 (img_map2 (*)) (subsample step M)
          (map2 (img_map2 (-)) (subsample step P1) (subsample step T))
        = map2 (img_map2 (*)) (subsample step M)
            (map2 (img_map2 (-)) (subsample step P2) (subsample step T))"
    unfolding subsample_map2[symmetric] assms ..
  then show ?thesis
    unfolding gradient_loss_def Let_def by simp
qed

lemma GradientLoss_loop_masked_diff:
  assumes "map2 (img_map2 (*)) M (map2 (img_map2 (-)) P1 T)
           = map2 (img_map2 (*)) M (map2 (img_map2 (-)) P2 T)"
  shows "GradientLoss_loop mr self P1 T M acc scs = GradientLoss_loop mr self P2 T M acc scs"
  by (induction scs arbitrary: acc) (simp_all add: gradient_loss_masked_diff[OF assms])

text \<open>
  Claim C4. Let the solver return, for the prediction and for the transformed prediction,
  a solution of the normal equations of the masked least-squares alignment for every
  image, and let the mask have no negative entry. Then for every \<open>a > 0\<close> and every \<open>b\<close>
  the loss of \<open>ScaleAndShiftInvariantLoss.forward\<close> on \<open>a * prediction + b\<close> equals the loss
  on \<open>prediction\<close>, for every target, every reduction function, every \<open>alpha\<close> and every
  number of scales.
\<close>

theorem ssi_loss_affine_invariant:
  fixes a b :: real
  assumes a: "0 < a"
    and ex: "exact_solver solver prediction target mask'"
    and ex': "exact_solver solver (map (map (map (\<lambda>x. a * x + b))) prediction) target mask'"
    and nn: "\<forall>img \<in> set mask'. \<forall>row \<in> set img. \<forall>x \<in> set row. 0 \<le> x"
  shows "snd (ScaleAndShiftInvariantLoss_forward solver masked_reduction self
                (map (map (map (\<lambda>x. a * x + b))) prediction) target mask')
         = snd (ScaleAndShiftInvariantLoss_forward solver masked_reduction self
                  prediction target mask')"
proof -
  let ?P' = "map (map (map (\<lambda>x. a * x + b))) prediction"
  obtain sc sh where so: "solver prediction target mask' = (sc, sh)" by (cases "solver prediction target mask'")
  obtain sc' sh' where so': "solver ?P' target mask' = (sc', sh')" by (cases "solver ?P' target mask'")
  from ex so have ls: "length sc = length prediction" "length sh = length prediction"
    and al: "\<forall>i < length prediction.
               is_alignment (sc ! i) (sh ! i) (prediction ! i) (target ! i) (mask' ! i)"
    by (simp_all add: exact_solver_def)
  from ex' so' have ls': "length sc' = length prediction" "length sh' = length prediction"
    and al': "\<forall>i < length prediction.
               is_alignment (sc' ! i) (sh' ! i) (?P' ! i) (target ! i) (mask' ! i)"
    by (simp_all add: exact_solver_def)
  have a0: "a \<noteq> 0" using a by simp
  note D = aligned_masked_diff[OF a0 ls ls' al al' nn]
  note Q = aligned_masked_sq[OF a0 ls ls' al al' nn]
  show ?thesis
    unfolding ScaleAndShiftInvariantLoss_forward_def so so' prod.case Let_def snd_conv
      MiDaSMSELoss_forward_def GradientLoss_forward_def Q
      GradientLoss_loop_masked_diff[OF D] ..
qed

text \<open>
  The closed-form solver meets the hypothesis of the theorem wherever the system of
  normal equations is regular: its result solves both equations.
\<close>

lemma closed_form_alignment_exact:
  fixes p t m :: image
  assumes det: "(\<Sum>(mi, xi, ti) \<leftarrow> pixels m p t. mi * xi * xi)
                  * (\<Sum>(mi, xi, ti) \<leftarrow> pixels m p t. mi)
                - (\<Sum>(mi, xi, ti) \<leftarrow> pixels m p t. mi * xi)
                  * (\<Sum>(mi, xi, ti) \<leftarrow> pixels m p t. mi * xi) \<noteq> 0"
  shows "is_alignment (fst (closed_form_alignment p t m)) (snd (closed_form_alignment p t m)) p t m"
proof -
  define X where "X = pixels m p t"
  define a00 where "a00 = (\<Sum>(mi, xi, ti) \<leftarrow> X. mi * xi * xi)"
  define a01 where "a01 = (\<Sum>(mi, xi, ti) \<leftarrow> X. mi * xi)"
  define a11 where "a11 = (\<Sum>(mi, xi, ti) \<leftarrow> X. mi)"
  define b0 where "b0 = (\<Sum>(mi, xi, ti) \<leftarrow> X. mi * xi * ti)"
  define b1 where "b1 = (\<Sum>(mi, xi, ti) \<leftarrow> X. mi * ti)"
  define dt where "dt = a00 * a11 - a01 * a01"
  define s where "s = (a11 * b0 - a01 * b1) / dt"
  define h where "h = (- a01 * b0 + a00 * b1) / dt"
  have dt0: "dt \<noteq> 0" using det unfolding dt_def a00_def a01_def a11_def X_def .
  have cf: "closed_form_alignment p t m = (s, h)"
    using dt0
    unfolding closed_form_alignment_def Let_def X_def[symmetric]
      a00_def[symmetric] a01_def[symmetric] a11_def[symmetric] b0_def[symmetric] b1_def[symmetric]
      dt_def[symmetric] s_def h_def
    by simp
  have sd: "s * dt = a11 * b0 - a01 * b1" and hd: "h * dt = - a01 * b0 + a00 * b1"
    using dt0 by (simp_all add: s_def h_def)
  have "(\<Sum>(mi, xi, ti) \<leftarrow> X. mi * (s * xi + h - ti) * xi)
        = (\<Sum>x \<leftarrow> X. s * (case x of (mi, xi, ti) \<Rightarrow> mi * xi * xi)
                     + h * (case x of (mi, xi, ti) \<Rightarrow> mi * xi)
                     + (- 1) * (case x of (mi, xi, ti) \<Rightarrow> mi * xi * ti)
                     + 0 * (case x of (mi, xi, ti) \<Rightarrow> mi))"
    by (rule arg_cong[where f = sum_list], rule map_cong[OF refl])
       (auto simp: algebra_simps)
  also have "\<dots> = s * a00 + h * a01 + (- 1) * b0 + 0 * a11"
    unfolding sum_list_lin4 a00_def a01_def a11_def b0_def ..
  finally have n1: "(\<Sum>(mi, xi, ti) \<leftarrow> X. mi * (s * xi + h - ti) * xi) = s * a00 + h * a01 - b0"
    by simp
  have "(\<Sum>(mi, xi, ti) \<leftarrow> X. mi * (s * xi + h - ti))
        = (\<Sum>x \<leftarrow> X. s * (case x of (mi, xi, ti) \<Rightarrow> mi * xi)
                     + h * (case x of (mi, xi, ti) \<Rightarrow> mi)
                     + (- 1) * (case x of (mi, xi, ti) \<Rightarrow> mi * ti)
                     + 0 * (case x of (mi, xi, ti) \<Rightarrow> mi))"
    by (rule arg_cong[where f = sum_list], rule map_cong[OF refl])
       (auto simp: algebra_simps)
  also have "\<dots> = s * a01 + h * a11 + (- 1) * b1 + 0 * a11"
    unfolding sum_list_lin4 a01_def a11_def b1_def ..
  finally have n2: "(\<Sum>(mi, xi, ti) \<leftarrow> X. mi * (s * xi + h - ti)) = s * a01 + h * a11 - b1"
    by simp
  have "(s * a00 + h * a01 - b0) * dt = (s * dt) * a00 + (h * dt) * a01 - b0 * dt"
    by (simp add: algebra_simps)
  also have "\<dots> = (a11 * b0 - a01 * b1) * a00 + (- a01 * b0 + a00 * b1) * a01 - b0 * dt"
    by (simp only: sd hd)
  also have "\<dots> = 0" by (simp add: dt_def algebra_simps)
  finally have z1: "s * a00 + h * a01 - b0 = 0" using dt0 by simp
  have "(s * a01 + h * a11 - b1) * dt = (s * dt) * a01 + (h * dt) * a11 - b1 * dt"
    by (simp add: algebra_simps)
  also have "\<dots> = (a11 * b0 - a01 * b1) * a01 + (- a01 * b0 + a00 * b1) * a11 - b1 * dt"
    by (simp only: sd hd)
  also have "\<dots> = 0" by (simp add: dt_def algebra_simps)
  finally have z2: "s * a01 + h * a11 - b1 = 0" using dt0 by simp
  show ?thesis
    unfolding cf fst_conv snd_conv is_alignment_def X_def[symmetric] n1 n2 z1 z2 by simp
qed

lemma px1: "pixels [[1, 1]] [[0, 1]] [[1, 3]] = [(1, 0, 1), (1, 1, 3)]"
  by (simp add: pixels_def)

lemma px2: "pixels [[1, 1]] [[1, 3]] [[1, 3]] = [(1, 1, 1), (1, 3, 3)]"
  by (simp add: pixels_def)

lemma cf1: "closed_form_solver [[[0, 1]]] [[[1, 3]]] [[[1, 1]]] = ([2], [1])"
  by (simp add: closed_form_solver_def closed_form_alignment_def px1)

lemma cf2: "closed_form_solver [[[1, 3]]] [[[1, 3]]] [[[1, 1]]] = ([1], [0])"
  by (simp add: closed_form_solver_def closed_form_alignment_def px2)

text \<open>
  One image of two pixels, \<open>a = 2\<close> and \<open>b = 1\<close>, with the closed-form solver: the alignment
  is \<open>(2, 1)\<close> for the prediction and \<open>(1, 0)\<close> for the transformed prediction.
\<close>

theorem ssi_loss_affine_invariant_witness:
  "snd (ScaleAndShiftInvariantLoss_forward closed_form_solver
          (\<lambda>image_loss summed_mask kind. sum_list image_loss / sum_list summed_mask)
          \<lparr>data_loss = \<lparr>mse_reduction_type = ''batch''\<rparr>,
           regularization_loss = \<lparr>reduction_type = ''batch'', scales = 4\<rparr>,
           alpha = 1 / 2, prediction_ssi = None\<rparr>
          [[[1, 3]]] [[[1, 3]]] [[[1, 1]]])
   = snd (ScaleAndShiftInvariantLoss_forward closed_form_solver
            (\<lambda>image_loss summed_mask kind. sum_list image_loss / sum_list summed_mask)
            \<lparr>data_loss = \<lparr>mse_reduction_type = ''batch''\<rparr>,
             regularization_loss = \<lparr>reduction_type = ''batch'', scales = 4\<rparr>,
             alpha = 1 / 2, prediction_ssi = None\<rparr>
            [[[0, 1]]] [[[1, 3]]] [[[1, 1]]])"
proof -
  have e1: "exact_solver closed_form_solver [[[0, 1]]] [[[1, 3]]] [[[1, 1]]]"
    by (simp add: exact_solver_def cf1 is_alignment_def px1)
  have e2: "exact_solver closed_form_solver (map (map (map (\<lambda>x. 2 * x + 1))) [[[0, 1]]])
              [[[1, 3]]] [[[1, 1]]]"
    by (simp add: exact_solver_def cf2 is_alignment_def px2)
  have nn: "\<forall>img \<in> set [[[1, 1 :: real]]]. \<forall>row \<in> set img. \<forall>x \<in> set row. 0 \<le> x"
    by simp
  have a: "(0 :: real) < 2" by simp
  from ssi_loss_affine_invariant[OF a e1 e2 nn] show ?thesis by simp
qed

end
